theory Spec2Isabelle
  imports Complex_Main
begin

chapter \<open>The embedding\<close>

section \<open>Configuration and errors\<close>

text \<open>
  The dictionary \<^verbatim>\<open>conf\<close> of \<^verbatim>\<open>misc.py\<close>, restricted to the entries
  read by the functions embedded below.  Temperatures, durations and clock readings are
  Python floats; they are modelled as real numbers, so arithmetic is exact.
\<close>

record conf =
  fan_lv0 :: real
  fan_lv1 :: real
  fan_lv2 :: real
  fan_lv3 :: real
  fan_linear :: bool
  time_twice :: real
  time_press :: real
  slider_auto :: bool
  slider_time :: real
  slider_refresh :: real

text \<open>The values \<^verbatim>\<open>read_conf\<close> falls back to.\<close>

definition default_conf :: conf where
  "default_conf = \<lparr>fan_lv0 = 35, fan_lv1 = 40, fan_lv2 = 45, fan_lv3 = 50,
     fan_linear = False, time_twice = 7 / 10, time_press = 18 / 10,
     slider_auto = True, slider_time = 10, slider_refresh = 0\<rparr>"

text \<open>The exceptions that the embedded code can raise; \<open>Raised\<close> stands for whatever a
  page's text generation throws.\<close>

datatype py_error = ZeroDivisionError | KeyError | IndexError | Raised string

section \<open>Fan curve (\<^verbatim>\<open>misc.fan_temp2dc\<close>)\<close>

datatype level = Lv3 | Lv2 | Lv1 | Lv0

text \<open>\<^verbatim>\<open>lv2dc = OrderedDict({'lv3': 100, 'lv2': 75, 'lv1': 50, 'lv0': 25})\<close>,
  in its iteration order.\<close>

definition lv2dc :: "(level \<times> real) list" where
  "lv2dc = [(Lv3, 100), (Lv2, 75), (Lv1, 50), (Lv0, 25)]"

text \<open>\<^verbatim>\<open>lv2dc[lv]\<close>; every level is a key of the dictionary.\<close>

definition lv2dc_get :: "level \<Rightarrow> real" where
  "lv2dc_get lv = the (map_of lv2dc lv)"

text \<open>\<^verbatim>\<open>conf['fan'][lv]\<close>.\<close>

fun conf_fan :: "conf \<Rightarrow> level \<Rightarrow> real" where
  "conf_fan c Lv3 = fan_lv3 c"
| "conf_fan c Lv2 = fan_lv2 c"
| "conf_fan c Lv1 = fan_lv1 c"
| "conf_fan c Lv0 = fan_lv0 c"

text \<open>The \<^verbatim>\<open>for lv, dc in lv2dc.items()\<close> loop of step mode: the first level whose
  threshold is met decides; when the items are exhausted the function falls through to
  \<^verbatim>\<open>return 10\<close>.\<close>

fun step_scan :: "conf \<Rightarrow> real \<Rightarrow> (level \<times> real) list \<Rightarrow> real" where
  "step_scan c temp [] = 10"
| "step_scan c temp ((lv, dc) # items) =
     (if temp \<ge> conf_fan c lv then dc else step_scan c temp items)"

text \<open>\<^verbatim>\<open>slope = (lv3_percent - lv0_percent) / denominator if denominator > 0 else 1.0\<close>\<close>

definition fan_slope :: "conf \<Rightarrow> real" where
  "fan_slope c =
     (let lv0_percent = lv2dc_get Lv0;
          lv3_percent = lv2dc_get Lv3;
          base_temp = conf_fan c Lv0;
          denominator = conf_fan c Lv3 - base_temp
      in if denominator > 0 then (lv3_percent - lv0_percent) / denominator else 1)"

definition fan_temp2dc :: "conf \<Rightarrow> real \<Rightarrow> real" where
  "fan_temp2dc c temp =
     (if fan_linear c then
        (let lv0_percent = lv2dc_get Lv0;
             lv3_percent = lv2dc_get Lv3;
             base_temp = conf_fan c Lv0;
             slope = fan_slope c
         in min lv3_percent (max (slope * (temp - base_temp) + lv0_percent) lv0_percent))
      else step_scan c temp lv2dc)"

text \<open>
  The definition above computes the linear branch in exact arithmetic.  The code computes
  it in Python floats, and the value of the branch at a given temperature depends on the
  rounding.  The second embedding below leaves the four float operations of the branch
  open: a float is a finite number, an infinity or a NaN; \<open>fl_less\<close> is Python's
  \<^verbatim>\<open><\<close> (false whenever a NaN is involved), \<open>py_max\<close> and \<open>py_min\<close> are the
  two-argument \<^verbatim>\<open>max\<close> and \<^verbatim>\<open>min\<close>, which keep their first argument unless the second
  is strictly greater, respectively smaller.
\<close>

datatype fl = Fin real | PosInf | NegInf | NaN

fun fl_less :: "fl \<Rightarrow> fl \<Rightarrow> bool" where
  "fl_less (Fin a) (Fin b) = (a < b)"
| "fl_less (Fin a) PosInf = True"
| "fl_less NegInf (Fin b) = True"
| "fl_less NegInf PosInf = True"
| "fl_less x y = False"

definition py_max :: "fl \<Rightarrow> fl \<Rightarrow> fl" where
  "py_max a b = (if fl_less a b then b else a)"

definition py_min :: "fl \<Rightarrow> fl \<Rightarrow> fl" where
  "py_min a b = (if fl_less b a then b else a)"

record float_ops =
  fl_sub :: "fl \<Rightarrow> fl \<Rightarrow> fl"
  fl_mul :: "fl \<Rightarrow> fl \<Rightarrow> fl"
  fl_div :: "fl \<Rightarrow> fl \<Rightarrow> fl"
  fl_add :: "fl \<Rightarrow> fl \<Rightarrow> fl"

text \<open>\<^verbatim>\<open>slope = (lv3_percent - lv0_percent) / denominator if denominator > 0 else 1.0\<close>;
  the two percents are Python integers, so their difference is exact.\<close>

definition fan_slope_fl :: "float_ops \<Rightarrow> conf \<Rightarrow> fl" where
  "fan_slope_fl ops c =
     (let lv0_percent = lv2dc_get Lv0;
          lv3_percent = lv2dc_get Lv3;
          base_temp = Fin (conf_fan c Lv0);
          denominator = fl_sub ops (Fin (conf_fan c Lv3)) base_temp
      in if fl_less (Fin 0) denominator
         then fl_div ops (Fin (lv3_percent - lv0_percent)) denominator else Fin 1)"

definition fan_temp2dc_fl :: "float_ops \<Rightarrow> conf \<Rightarrow> real \<Rightarrow> fl" where
  "fan_temp2dc_fl ops c temp =
     (if fan_linear c then
        (let lv0_percent = Fin (lv2dc_get Lv0);
             lv3_percent = Fin (lv2dc_get Lv3);
             base_temp = Fin (conf_fan c Lv0);
             slope = fan_slope_fl ops c
         in py_min lv3_percent
              (py_max (fl_add ops (fl_mul ops slope (fl_sub ops (Fin temp) base_temp)) lv0_percent)
                 lv0_percent))
      else Fin (step_scan c temp lv2dc))"




section \<open>Fan controller (\<^verbatim>\<open>fan.get_dc\<close>, \<^verbatim>\<open>fan.change_dc\<close>, \<^verbatim>\<open>fan.running\<close>)\<close>

text \<open>The \<^verbatim>\<open>cache\<close> dictionary of \<^verbatim>\<open>get_dc\<close> (keys \<^verbatim>\<open>'time'\<close> and
  \<^verbatim>\<open>'dc'\<close>, both absent at start).  The \<^verbatim>\<open>cache\<close> of \<^verbatim>\<open>change_dc\<close> has the one
  key \<^verbatim>\<open>'dc'\<close> and is a \<open>real option\<close>.\<close>

record dc_cache =
  cache_time :: "real option"
  cache_dc :: "real option"

definition empty_cache :: dc_cache where
  "empty_cache = \<lparr>cache_time = None, cache_dc = None\<rparr>"

text \<open>What the fan loop observes and does: \<open>Recompute t\<^sub>1 t\<^sub>2 dc\<close> records that the duty
  cycle was recomputed, the rate-limit test having read the clock as \<open>t\<^sub>1\<close> and the cache
  having been stamped with the reading \<open>t\<^sub>2\<close>; \<open>PwmWrite r\<close> is \<^verbatim>\<open>pin13.write(r)\<close>.\<close>

datatype fan_event = Recompute real real real | PwmWrite real

text \<open>One call of \<^verbatim>\<open>get_dc\<close>.  Its inputs from the environment are
  \<^verbatim>\<open>misc.fan_running()\<close>, the two readings of \<^verbatim>\<open>time.time()\<close> (the test and the
  stamp) and the value of \<^verbatim>\<open>read_cpu_temp()\<close>.  \<^verbatim>\<open>cache['dc']\<close> raises
  \<^verbatim>\<open>KeyError\<close> when nothing was ever computed.\<close>

record tick =
  fan_on :: bool
  t_check :: real
  t_stamp :: real
  cpu_temp :: real

text \<open>\<^verbatim>\<open>cache.get('time', 0)\<close>\<close>

definition cache_stamp :: "dc_cache \<Rightarrow> real" where
  "cache_stamp cache = (case cache_time cache of None \<Rightarrow> 0 | Some t \<Rightarrow> t)"

definition get_dc ::
  "conf \<Rightarrow> tick \<Rightarrow> dc_cache \<Rightarrow> (py_error + real) \<times> dc_cache \<times> fan_event list" where
  "get_dc c k cache =
     (if \<not> fan_on k then (Inr (1 / 10), cache, [])
      else
        let (cache', evs) =
              (if t_check k - cache_stamp cache > 5
               then (\<lparr>cache_time = Some (t_stamp k),
                       cache_dc = Some (fan_temp2dc c (cpu_temp k))\<rparr>,
                     [Recompute (t_check k) (t_stamp k) (fan_temp2dc c (cpu_temp k))])
               else (cache, []))
        in (case cache_dc cache' of
              None \<Rightarrow> (Inl KeyError, cache', evs)
            | Some dc \<Rightarrow> (Inr dc, cache', evs)))"

definition change_dc :: "real \<Rightarrow> real option \<Rightarrow> real option \<times> fan_event list" where
  "change_dc dc cache =
     (if Some dc \<noteq> cache then (Some dc, [PwmWrite (1 - dc / 100)]) else (cache, []))"

text \<open>\<^verbatim>\<open>while True: change_dc(get_dc()); time.sleep(0.1)\<close>, run over the ticks given;
  an exception of \<^verbatim>\<open>get_dc\<close> ends the loop.  The result is the trace of events.\<close>

fun running :: "conf \<Rightarrow> tick list \<Rightarrow> dc_cache \<Rightarrow> real option \<Rightarrow> fan_event list" where
  "running c [] gc ac = []"
| "running c (k # ks) gc ac =
     (case get_dc c k gc of
        (Inl e, gc', evs) \<Rightarrow> evs
      | (Inr dc, gc', evs) \<Rightarrow>
          (let (ac', ws) = change_dc dc ac in evs @ ws @ running c ks gc' ac'))"

text \<open>Projections of a trace: the recomputations as (test reading, stamp), and the
  off-ratios written to the PWM pin.\<close>

fun recomputes :: "fan_event list \<Rightarrow> (real \<times> real) list" where
  "recomputes [] = []"
| "recomputes (Recompute t1 t2 dc # es) = (t1, t2) # recomputes es"
| "recomputes (PwmWrite r # es) = recomputes es"

fun pwm_writes :: "fan_event list \<Rightarrow> real list" where
  "pwm_writes [] = []"
| "pwm_writes (Recompute t1 t2 dc # es) = pwm_writes es"
| "pwm_writes (PwmWrite r # es) = r # pwm_writes es"

text \<open>The off-ratio of the last write that the cache of \<^verbatim>\<open>change_dc\<close> stands for, if
  any.\<close>

definition applied_ratio :: "real option \<Rightarrow> real list" where
  "applied_ratio ac = (case ac of None \<Rightarrow> [] | Some d \<Rightarrow> [1 - d / 100])"

section \<open>Gesture recognizer (\<^verbatim>\<open>misc.read_key\<close>, \<^verbatim>\<open>misc.watch_key\<close>)\<close>

datatype gesture = Click | Twice | Press

text \<open>The regular expressions of \<^verbatim>\<open>watch_key\<close> are sequences of items \<open>c{n,}\<close>
  (\<open>c+\<close> is \<open>c{1,}\<close>).  \<open>re_match r s\<close> is the truth value of \<^verbatim>\<open>p.match(s)\<close>:
  some prefix of \<open>s\<close> is matched by \<open>r\<close>, each item taking \<open>n\<close> or more copies of its
  character.\<close>

type_synonym regex = "(char \<times> nat) list"

fun re_match :: "regex \<Rightarrow> string \<Rightarrow> bool" where
  "re_match [] s = True"
| "re_match ((c, n) # r) s =
     list_ex (\<lambda>k. re_match r (drop k s)) [n ..< Suc (length (takeWhile (\<lambda>x. x = c) s))]"

text \<open>\<^verbatim>\<open>size = int(conf['time']['press'] * 10)\<close> and
  \<^verbatim>\<open>wait = int(conf['time']['twice'] * 10)\<close>, for durations that are not negative.\<close>

definition press_size :: "conf \<Rightarrow> nat" where
  "press_size c = nat \<lfloor>time_press c * 10\<rfloor>"

definition twice_wait :: "conf \<Rightarrow> nat" where
  "twice_wait c = nat \<lfloor>time_twice c * 10\<rfloor>"

text \<open>\<^verbatim>\<open>r'1+0+1{%d,}' % wait\<close>, \<^verbatim>\<open>r'1+0+1+0+1{3,}'\<close> and \<^verbatim>\<open>r'1+0{%d,}' % size\<close>.\<close>

definition click_re :: "nat \<Rightarrow> regex" where
  "click_re wait = [(CHR ''1'', 1), (CHR ''0'', 1), (CHR ''1'', wait)]"

definition twice_re :: regex where
  "twice_re = [(CHR ''1'', 1), (CHR ''0'', 1), (CHR ''1'', 1), (CHR ''0'', 1), (CHR ''1'', 3)]"

definition press_re :: "nat \<Rightarrow> regex" where
  "press_re sz = [(CHR ''1'', 1), (CHR ''0'', sz)]"

text \<open>The dictionary \<^verbatim>\<open>pattern\<close> of \<^verbatim>\<open>watch_key\<close>, in its iteration (insertion)
  order.\<close>

definition key_pattern :: "nat \<Rightarrow> nat \<Rightarrow> (gesture \<times> regex) list" where
  "key_pattern sz wait =
     [(Click, click_re wait), (Twice, twice_re), (Press, press_re sz)]"

text \<open>\<^verbatim>\<open>for t, p in pattern.items(): if p.match(s): return t\<close>\<close>

fun match_first :: "(gesture \<times> regex) list \<Rightarrow> string \<Rightarrow> gesture option" where
  "match_first [] s = None"
| "match_first ((t, p) # ps) s = (if re_match p s then Some t else match_first ps s)"

text \<open>\<^verbatim>\<open>s[-size:]\<close>: the last \<open>size\<close> characters, and the whole string when \<open>size\<close>
  is 0 (Python reads \<^verbatim>\<open>s[-0:]\<close> as \<^verbatim>\<open>s[0:]\<close>).  \<^verbatim>\<open>str(pin11.read())\<close> of a
  high or low pin.\<close>

definition last_chars :: "nat \<Rightarrow> string \<Rightarrow> string" where
  "last_chars sz s = (if sz = 0 then s else drop (length s - sz) s)"

definition str_read :: "bool \<Rightarrow> string" where
  "str_read b = (if b then ''1'' else ''0'')"

text \<open>\<^verbatim>\<open>s = s[-size:] + str(pin11.read())\<close>\<close>

definition window_step :: "nat \<Rightarrow> string \<Rightarrow> bool \<Rightarrow> string" where
  "window_step sz s b = last_chars sz s @ str_read b"

text \<open>The loop of \<^verbatim>\<open>read_key\<close> over the samples given, one every 0.1 s.  It returns the
  gesture, the window that matched and the samples not yet read; \<open>None\<close> when the samples
  run out before any pattern matches.\<close>

fun read_key_loop ::
  "(gesture \<times> regex) list \<Rightarrow> nat \<Rightarrow> string \<Rightarrow> bool list \<Rightarrow> (gesture \<times> string \<times> bool list) option" where
  "read_key_loop pattern sz s [] = None"
| "read_key_loop pattern sz s (b # bs) =
     (let s' = window_step sz s b in
      case match_first pattern s' of
        Some t \<Rightarrow> Some (t, s', bs)
      | None \<Rightarrow> read_key_loop pattern sz s' bs)"

definition read_key ::
  "(gesture \<times> regex) list \<Rightarrow> nat \<Rightarrow> bool list \<Rightarrow> (gesture \<times> string \<times> bool list) option" where
  "read_key pattern sz samples = read_key_loop pattern sz [] samples"

text \<open>Every window \<^verbatim>\<open>read_key\<close> builds while it consumes the samples given, whether or
  not a pattern matches on the way (a match only ends the call earlier).\<close>

fun windows :: "nat \<Rightarrow> string \<Rightarrow> bool list \<Rightarrow> string list" where
  "windows sz s [] = []"
| "windows sz s (b # bs) = window_step sz s b # windows sz (window_step sz s b) bs"





section \<open>Metrics sampler (\<^verbatim>\<open>misc.get_interface_io_rate\<close>, \<^verbatim>\<open>misc.get_disk_io_rate\<close>)\<close>

text \<open>A raw sample \<^verbatim>\<open>{"rx": .., "tx": .., "time": ..}\<close> and a rate entry
  \<^verbatim>\<open>{"rx": .., "tx": ..}\<close>.\<close>

record raw_sample =
  raw_rx :: int
  raw_tx :: int
  raw_time :: real

record io_rate =
  rate_rx :: real
  rate_tx :: real

text \<open>The module-level dictionaries.\<close>

record metrics =
  raw_interface_io :: "string \<rightharpoonup> raw_sample"
  interface_io_rate :: "string \<rightharpoonup> io_rate"
  raw_disk_io :: "string \<rightharpoonup> raw_sample"
  disk_io_rate :: "string \<rightharpoonup> io_rate"
  disk_sector_sizes :: "string \<rightharpoonup> int"

definition no_metrics :: metrics where
  "no_metrics = \<lparr>raw_interface_io = Map.empty, interface_io_rate = Map.empty,
     raw_disk_io = Map.empty, disk_io_rate = Map.empty, disk_sector_sizes = Map.empty\<rparr>"

text \<open>Python's true division: a zero divisor raises.\<close>

definition py_div :: "real \<Rightarrow> real \<Rightarrow> py_error + real" where
  "py_div a b = (if b = 0 then Inl ZeroDivisionError else Inr (a / b))"

text \<open>\<^verbatim>\<open>((raw[k] - prev[k]) / duration) / 1024 / 1024\<close>\<close>

definition interface_rate :: "int \<Rightarrow> int \<Rightarrow> real \<Rightarrow> py_error + real" where
  "interface_rate cur prev duration =
     (case py_div (real_of_int (cur - prev)) duration of
        Inl e \<Rightarrow> Inl e
      | Inr q \<Rightarrow> Inr (q / 1024 / 1024))"

text \<open>One call of \<^verbatim>\<open>get_interface_io_rate(interface)\<close>; \<open>raw\<close> is what
  \<^verbatim>\<open>get_interface_io(interface)\<close> returned.  The right-hand side of the first assignment
  is evaluated before anything is stored, so an exception leaves the dictionaries as they
  were.\<close>

definition get_interface_io_rate ::
  "string \<Rightarrow> raw_sample \<Rightarrow> metrics \<Rightarrow> (py_error + io_rate) \<times> metrics" where
  "get_interface_io_rate interface raw m =
     (case raw_interface_io m interface of
        Some prev \<Rightarrow>
          (let duration = raw_time raw - raw_time prev in
           case interface_rate (raw_rx raw) (raw_rx prev) duration of
             Inl e \<Rightarrow> (Inl e, m)
           | Inr r \<Rightarrow>
               (case interface_rate (raw_tx raw) (raw_tx prev) duration of
                  Inl e \<Rightarrow>
                    (Inl e, m\<lparr>interface_io_rate := (interface_io_rate m)(interface \<mapsto>
                       \<lparr>rate_rx = r, rate_tx =
                          (case interface_io_rate m interface of
                             Some old \<Rightarrow> rate_tx old | None \<Rightarrow> 0)\<rparr>)\<rparr>)
                | Inr t \<Rightarrow>
                    (let rate = \<lparr>rate_rx = r, rate_tx = t\<rparr> in
                     (Inr rate,
                      m\<lparr>interface_io_rate := (interface_io_rate m)(interface \<mapsto> rate),
                        raw_interface_io := (raw_interface_io m)(interface \<mapsto> raw)\<rparr>))))
      | None \<Rightarrow>
          (let rate = \<lparr>rate_rx = 0, rate_tx = 0\<rparr> in
           (Inr rate,
            m\<lparr>interface_io_rate := (interface_io_rate m)(interface \<mapsto> rate),
              raw_interface_io := (raw_interface_io m)(interface \<mapsto> raw)\<rparr>)))"

text \<open>\<^verbatim>\<open>while "sd" in disk and disk[-1].isdigit(): disk = disk[:-1]\<close>\<close>

fun has_sd :: "string \<Rightarrow> bool" where
  "has_sd (a # b # r) = ((a = CHR ''s'' \<and> b = CHR ''d'') \<or> has_sd (b # r))"
| "has_sd r = False"

text \<open>\<^verbatim>\<open>str.isdigit()\<close> on the ASCII characters of a device name.\<close>

definition isdigit :: "char \<Rightarrow> bool" where
  "isdigit ch = (ch \<in> set ''0123456789'')"

function delete_disk_partition_number :: "string \<Rightarrow> string" where
  "delete_disk_partition_number disk =
     (if has_sd disk \<and> isdigit (last disk)
      then delete_disk_partition_number (butlast disk) else disk)"
  by pat_completeness auto
termination
proof (relation "measure length")
  show "wf (measure length)" by simp
next
  fix disk :: string
  assume "has_sd disk \<and> isdigit (last disk)"
  then have "disk \<noteq> []" by (cases disk) auto
  then show "(butlast disk, disk) \<in> measure length" by simp
qed

declare delete_disk_partition_number.simps [simp del]

text \<open>\<^verbatim>\<open>((raw[k] - prev[k]) / duration) / (1024 / disk_sector_sizes[disk]) / 1024\<close>\<close>

definition disk_rate :: "int \<Rightarrow> int \<Rightarrow> real \<Rightarrow> int \<Rightarrow> py_error + real" where
  "disk_rate cur prev duration sector_size =
     (case py_div (real_of_int (cur - prev)) duration of
        Inl e \<Rightarrow> Inl e
      | Inr q \<Rightarrow>
          (case py_div 1024 (real_of_int sector_size) of
             Inl e \<Rightarrow> Inl e
           | Inr d \<Rightarrow>
               (case py_div q d of
                  Inl e \<Rightarrow> Inl e
                | Inr x \<Rightarrow> Inr (x / 1024))))"

text \<open>One call of \<^verbatim>\<open>get_disk_io_rate(disk)\<close>; \<open>hw_sector_size\<close> is what
  \<^verbatim>\<open>get_sector_size\<close> would read for the disk, \<open>raw\<close> is what \<^verbatim>\<open>get_disk_io\<close>
  returned.\<close>

definition get_disk_io_rate ::
  "string \<Rightarrow> int \<Rightarrow> raw_sample \<Rightarrow> metrics \<Rightarrow> (py_error + io_rate) \<times> metrics" where
  "get_disk_io_rate disk0 hw_sector_size raw m0 =
     (let disk = delete_disk_partition_number disk0;
          m = (if disk_sector_sizes m0 disk = None
               then m0\<lparr>disk_sector_sizes := (disk_sector_sizes m0)(disk \<mapsto> hw_sector_size)\<rparr>
               else m0)
      in case raw_disk_io m disk of
        Some prev \<Rightarrow>
          (let duration = raw_time raw - raw_time prev;
               sector_size = the (disk_sector_sizes m disk) in
           case disk_rate (raw_rx raw) (raw_rx prev) duration sector_size of
             Inl e \<Rightarrow> (Inl e, m)
           | Inr r \<Rightarrow>
               (case disk_rate (raw_tx raw) (raw_tx prev) duration sector_size of
                  Inl e \<Rightarrow>
                    (Inl e, m\<lparr>disk_io_rate := (disk_io_rate m)(disk \<mapsto>
                       \<lparr>rate_rx = r, rate_tx =
                          (case disk_io_rate m disk of
                             Some old \<Rightarrow> rate_tx old | None \<Rightarrow> 0)\<rparr>)\<rparr>)
                | Inr t \<Rightarrow>
                    (let rate = \<lparr>rate_rx = r, rate_tx = t\<rparr> in
                     (Inr rate,
                      m\<lparr>disk_io_rate := (disk_io_rate m)(disk \<mapsto> rate),
                        raw_disk_io := (raw_disk_io m)(disk \<mapsto> raw)\<rparr>))))
      | None \<Rightarrow>
          (let rate = \<lparr>rate_rx = 0, rate_tx = 0\<rparr> in
           (Inr rate,
            m\<lparr>disk_io_rate := (disk_io_rate m)(disk \<mapsto> rate),
              raw_disk_io := (raw_disk_io m)(disk \<mapsto> raw)\<rparr>)))"

text \<open>The sector size a call of \<^verbatim>\<open>get_disk_io_rate\<close> works with: the cached one, and
  the one read now when none is cached.\<close>

definition effective_sector_size :: "metrics \<Rightarrow> string \<Rightarrow> int \<Rightarrow> int" where
  "effective_sector_size m disk hw_sector_size =
     (case disk_sector_sizes m disk of None \<Rightarrow> hw_sector_size | Some s \<Rightarrow> s)"

section \<open>Display timers (\<^verbatim>\<open>oled.auto_slider\<close>, \<^verbatim>\<open>oled.refresh_display\<close>)\<close>

text \<open>
  What a timer loop reads and writes: the clock, the two shared deadlines
  \<^verbatim>\<open>next_time[0]\<close> and \<^verbatim>\<open>refresh_time[0]\<close>, and the display queue.  Each message of
  the queue is kept with the clock reading at which it was put.
\<close>

record sched =
  clock :: real
  next_time :: real
  refresh_time :: real
  display_queue :: "(real \<times> bool) list"

definition queue_put :: "bool \<Rightarrow> sched \<Rightarrow> sched" where
  "queue_put b w = w\<lparr>display_queue := display_queue w @ [(clock w, b)]\<rparr>"

text \<open>
  The timer loops run beside the display consumer, which writes both deadlines whenever
  it handles a message (\<^verbatim>\<open>next_time[0] = time.time() + duration\<close> for an advance, and
  \<^verbatim>\<open>refresh_time[0] = time.time() + period\<close> for every message).  What happens between
  two readings of the shared state by a loop is an input of the model: the time that
  passed (the length of a \<^verbatim>\<open>time.sleep(0.1)\<close>, whatever it really was) and the
  messages the consumer handled meanwhile, each with the consumer's clock reading.
  The statements of a loop between two tests of its condition take no time of their own.
\<close>

record interference =
  elapsed :: real
  consumer :: "(real \<times> bool) list"

definition consumer_write :: "conf \<Rightarrow> sched \<Rightarrow> real \<times> bool \<Rightarrow> sched" where
  "consumer_write c w = (\<lambda>(t, action).
     w\<lparr>next_time := (if action then t + slider_time c else next_time w),
       refresh_time := t + slider_refresh c\<rparr>)"

definition env_step :: "conf \<Rightarrow> sched \<Rightarrow> interference \<Rightarrow> sched" where
  "env_step c w e = foldl (consumer_write c) (w\<lparr>clock := clock w + elapsed e\<rparr>) (consumer e)"

text \<open>The state after a sequence of such steps.\<close>

definition env_steps :: "conf \<Rightarrow> interference list \<Rightarrow> sched \<Rightarrow> sched" where
  "env_steps c es w = foldl (env_step c) w es"

text \<open>A loop that was given \<open>n\<close> iterations and a finite part of its environment either
  returned or is still running.\<close>

datatype 'a run = Returned 'a | Running 'a

fun run_state :: "'a run \<Rightarrow> 'a" where
  "run_state (Returned w) = w"
| "run_state (Running w) = w"

text \<open>
  \<^verbatim>\<open>while time.time() < next_time[0]: time.sleep(0.1)\<close>.  Every test of the condition
  takes the next step of the environment, then reads the clock and the deadline.  The
  result is the environment not yet used, the state, and whether the loop was left;
  it is still waiting when the environment given is used up.
\<close>

fun slider_wait :: "conf \<Rightarrow> interference list \<Rightarrow> sched \<Rightarrow> interference list \<times> sched \<times> bool" where
  "slider_wait c [] w = ([], w, False)"
| "slider_wait c (e # es) w =
     (let w' = env_step c w e in
      if clock w' < next_time w' then slider_wait c es w' else (es, w', True))"

text \<open>The body of \<^verbatim>\<open>while misc.conf['slider']['auto']\<close>; a duration is falsy when it
  is 0, and the \<^verbatim>\<open>else\<close> branch sleeps once.  The third component tells whether the
  iteration was completed with the environment given.\<close>

definition slider_body :: "conf \<Rightarrow> interference list \<Rightarrow> sched \<Rightarrow> interference list \<times> sched \<times> bool" where
  "slider_body c es w =
     (if slider_time c \<noteq> 0
      then (case slider_wait c es (w\<lparr>next_time := clock w + slider_time c\<rparr>) of
              (es', w', done) \<Rightarrow> (es', if done then queue_put True w' else w', done))
      else (case es of
              [] \<Rightarrow> ([], w, False)
            | e # es' \<Rightarrow> (es', env_step c w e, True)))"

fun slider_loop :: "conf \<Rightarrow> nat \<Rightarrow> interference list \<Rightarrow> sched \<Rightarrow> sched run" where
  "slider_loop c n es w =
     (if \<not> slider_auto c then Returned w
      else (case n of
              0 \<Rightarrow> Running w
            | Suc m \<Rightarrow>
                (case slider_body c es w of
                   (es', w', True) \<Rightarrow> slider_loop c m es' w'
                 | (es', w', False) \<Rightarrow> Running w')))"

definition auto_slider :: "conf \<Rightarrow> nat \<Rightarrow> interference list \<Rightarrow> sched \<Rightarrow> sched run" where
  "auto_slider c n es w =
     slider_loop c n es (queue_put True (w\<lparr>next_time := clock w + 10\<rparr>))"

text \<open>The body of \<^verbatim>\<open>while misc.get_refresh_period()\<close>, which ends with a sleep, and the
  loop.\<close>

definition refresh_body :: "conf \<Rightarrow> sched \<Rightarrow> interference \<Rightarrow> sched" where
  "refresh_body c w e =
     env_step c
       (if clock w > refresh_time w
        then queue_put False (w\<lparr>refresh_time := clock w + slider_refresh c\<rparr>)
        else w) e"

fun refresh_display :: "conf \<Rightarrow> interference list \<Rightarrow> sched \<Rightarrow> sched run" where
  "refresh_display c [] w = (if slider_refresh c = 0 then Returned w else Running w)"
| "refresh_display c (e # es) w =
     (if slider_refresh c = 0 then Returned w else refresh_display c es (refresh_body c w e))"

section \<open>Display consumer (\<^verbatim>\<open>oled.display_process\<close>)\<close>

text \<open>One entry of a page's text: the keyword arguments of \<^verbatim>\<open>draw.text\<close> that vary.\<close>

record text_item =
  item_xy :: "int \<times> int"
  item_text :: string

text \<open>
  The state of the consumer: \<^verbatim>\<open>last_page[0]\<close>, \<^verbatim>\<open>display_list\<close>, the image buffer
  that \<^verbatim>\<open>draw.text\<close> paints into, the frames written to the physical display so far
  (\<^verbatim>\<open>disp.image(im); disp.display()\<close>), and what \<^verbatim>\<open>print\<close> has logged.
\<close>

record 'p display =
  last_page :: "'p option"
  display_list :: "'p list"
  buffer :: "text_item list"
  frames :: "text_item list list"
  printed :: "py_error list"

text \<open>\<^verbatim>\<open>disp_show\<close>: write the buffer to the display, then blank the buffer.\<close>

definition disp_show :: "'p display \<Rightarrow> 'p display" where
  "disp_show d = d\<lparr>frames := frames d @ [buffer d], buffer := []\<rparr>"

text \<open>
  \<^verbatim>\<open>for item in ...: draw.text(**item)\<close> inside the \<^verbatim>\<open>try\<close>: the items are painted
  in order; \<open>draw_text item\<close> tells whether \<^verbatim>\<open>draw.text\<close> raises on the item, and then
  the handler prints the exception and the remaining items are not painted.
\<close>

fun draw_loop :: "(text_item \<Rightarrow> py_error option) \<Rightarrow> text_item list \<Rightarrow> 'p display \<Rightarrow> 'p display" where
  "draw_loop draw_text [] d = d"
| "draw_loop draw_text (item # items) d =
     (case draw_text item of
        Some ex \<Rightarrow> d\<lparr>printed := printed d @ [ex]\<rparr>
      | None \<Rightarrow> draw_loop draw_text items (d\<lparr>buffer := buffer d @ [item]\<rparr>))"

text \<open>
  The \<^verbatim>\<open>try\<close> statement and the \<^verbatim>\<open>disp_show()\<close> after it.  \<open>page_text p action\<close>
  is the outcome of \<^verbatim>\<open>p.get_page_text(action)\<close>, which is evaluated before the first
  \<^verbatim>\<open>draw.text\<close>.
\<close>

definition render ::
  "('p \<Rightarrow> bool \<Rightarrow> py_error + text_item list) \<Rightarrow> (text_item \<Rightarrow> py_error option) \<Rightarrow>
     'p \<Rightarrow> bool \<Rightarrow> 'p display \<Rightarrow> 'p display" where
  "render page_text draw_text p action d =
     disp_show
       (case page_text p action of
          Inl ex \<Rightarrow> d\<lparr>printed := printed d @ [ex]\<rparr>
        | Inr items \<Rightarrow> draw_loop draw_text items d)"

text \<open>
  One iteration of \<^verbatim>\<open>while True\<close> in \<^verbatim>\<open>display_process\<close>, for the message
  \<open>action\<close> taken from the queue; \<open>pages\<close> is what \<^verbatim>\<open>gen_display_pages_list()\<close>
  would return.  \<^verbatim>\<open>display_list[0]\<close> raises \<^verbatim>\<open>IndexError\<close> on an empty list, outside
  the \<^verbatim>\<open>try\<close>.
\<close>

definition display_step ::
  "conf \<Rightarrow> 'p list \<Rightarrow> ('p \<Rightarrow> bool \<Rightarrow> py_error + text_item list) \<Rightarrow>
     (text_item \<Rightarrow> py_error option) \<Rightarrow> bool \<Rightarrow>
     sched \<times> 'p display \<Rightarrow> (py_error + unit) \<times> sched \<times> 'p display" where
  "display_step c pages page_text draw_text action = (\<lambda>(w, d).
     let d1 = (if display_list d = [] then d\<lparr>display_list := pages\<rparr> else d);
         w1 = (if action then w\<lparr>next_time := clock w + slider_time c\<rparr> else w);
         w2 = w1\<lparr>refresh_time := clock w + slider_refresh c\<rparr>
     in if action \<and> display_list d1 = [] then (Inl IndexError, w2, d1)
        else
          let d2 = d1\<lparr>last_page := (if action then Some (hd (display_list d1)) else last_page d1)\<rparr>;
              d3 = (case last_page d2 of
                      None \<Rightarrow> d2
                    | Some p \<Rightarrow> render page_text draw_text p action d2);
              d4 = (if action then d3\<lparr>display_list := tl (display_list d3)\<rparr> else d3)
          in (Inr (), w2, d4))"

text \<open>The consumer over the messages given; an exception that escapes ends it.\<close>

fun display_process ::
  "conf \<Rightarrow> 'p list \<Rightarrow> ('p \<Rightarrow> bool \<Rightarrow> py_error + text_item list) \<Rightarrow>
     (text_item \<Rightarrow> py_error option) \<Rightarrow> bool list \<Rightarrow>
     sched \<times> 'p display \<Rightarrow> (py_error + unit) \<times> sched \<times> 'p display" where
  "display_process c pages page_text draw_text [] wd = (Inr (), wd)"
| "display_process c pages page_text draw_text (action # actions) wd =
     (case display_step c pages page_text draw_text action wd of
        (Inl e, wd') \<Rightarrow> (Inl e, wd')
      | (Inr u, wd') \<Rightarrow> display_process c pages page_text draw_text actions wd')"

chapter \<open>Properties\<close>

section \<open>Fan curve\<close>

lemma lv2dc_get_simps [simp]:
  "lv2dc_get Lv0 = 25" "lv2dc_get Lv1 = 50" "lv2dc_get Lv2 = 75" "lv2dc_get Lv3 = 100"
  by (simp_all add: lv2dc_get_def lv2dc_def)

lemma step_mode_unfold:
  "\<not> fan_linear c \<Longrightarrow> fan_temp2dc c t =
     (if t \<ge> fan_lv3 c then 100 else if t \<ge> fan_lv2 c then 75
      else if t \<ge> fan_lv1 c then 50 else if t \<ge> fan_lv0 c then 25 else 10)"
  by (simp add: fan_temp2dc_def lv2dc_def)

lemma step_scan_le:
  "\<forall>(l, d) \<in> set items. d \<le> hi \<Longrightarrow> 10 \<le> hi \<Longrightarrow> step_scan c u items \<le> hi"
  by (induction items) auto

lemma step_scan_mono:
  "t \<le> t' \<Longrightarrow> \<forall>(lv, dc) \<in> set items. 10 \<le> dc \<Longrightarrow> sorted (rev (map snd items)) \<Longrightarrow>
     step_scan c t items \<le> step_scan c t' items"
proof (induction items)
  case Nil
  then show ?case by simp
next
  case (Cons a items)
  obtain lv dc where a: "a = (lv, dc)" by (cases a)
  have tail: "step_scan c t items \<le> step_scan c t' items"
    using Cons by (simp add: sorted_append)
  have "\<forall>(l, d) \<in> set items. d \<le> dc"
    using Cons.prems(3) a by (auto simp: sorted_append)
  moreover have "10 \<le> dc" using Cons.prems(2) a by simp
  ultimately have below: "step_scan c t items \<le> dc"
    by (rule step_scan_le)
  show ?case
    using Cons.prems(1) tail below a by auto
qed

text \<open>
  Claim C6.  In step mode the duty cycle is one of 25, 50, 75, 100 and 10; it is the
  percent of the first level, scanning lv3, lv2, lv1, lv0, whose threshold the temperature
  reaches, and 10 when it reaches none; and it never decreases when the temperature rises.
  This holds for every configuration, also one whose thresholds are not in increasing order.
\<close>

theorem step_mode_duty_cycle:
  "\<not> fan_linear c \<Longrightarrow>
     fan_temp2dc c t \<in> {25, 50, 75, 100, 10} \<and>
     fan_temp2dc c t =
       (if t \<ge> fan_lv3 c then 100 else if t \<ge> fan_lv2 c then 75
        else if t \<ge> fan_lv1 c then 50 else if t \<ge> fan_lv0 c then 25 else 10) \<and>
     (\<forall>t'. t \<le> t' \<longrightarrow> fan_temp2dc c t \<le> fan_temp2dc c t')"
proof (intro conjI allI impI)
  assume step: "\<not> fan_linear c"
  then show "fan_temp2dc c t \<in> {25, 50, 75, 100, 10}"
    by (simp add: step_mode_unfold)
  from step show "fan_temp2dc c t =
      (if t \<ge> fan_lv3 c then 100 else if t \<ge> fan_lv2 c then 75
       else if t \<ge> fan_lv1 c then 50 else if t \<ge> fan_lv0 c then 25 else 10)"
    by (rule step_mode_unfold)
  fix t' assume le: "t \<le> t'"
  have "step_scan c t lv2dc \<le> step_scan c t' lv2dc"
    by (rule step_scan_mono [OF le]) (simp_all add: lv2dc_def)
  then show "fan_temp2dc c t \<le> fan_temp2dc c t'"
    using step by (simp add: fan_temp2dc_def)
qed

theorem step_mode_duty_cycle_witness:
  "\<not> fan_linear default_conf \<and> fan_temp2dc default_conf 42 = 50 \<and>
     (42::real) \<le> 47 \<and> fan_temp2dc default_conf 42 \<le> fan_temp2dc default_conf 47 \<and>
     fan_temp2dc default_conf 47 = 75 \<and> fan_temp2dc default_conf 20 = 10"
proof -
  have step: "\<not> fan_linear default_conf" by (simp add: default_conf_def)
  have "(42::real) \<le> 47 \<longrightarrow> fan_temp2dc default_conf 42 \<le> fan_temp2dc default_conf 47"
    by (rule step_mode_duty_cycle [OF step, of 42, THEN conjunct2, THEN conjunct2, THEN spec])
  then have "fan_temp2dc default_conf 42 \<le> fan_temp2dc default_conf 47"
    by simp
  moreover have "fan_temp2dc default_conf 42 = 50"
    using step_mode_duty_cycle [OF step, of 42] by (simp add: default_conf_def)
  moreover have "fan_temp2dc default_conf 47 = 75"
    using step_mode_duty_cycle [OF step, of 47] by (simp add: default_conf_def)
  moreover have "fan_temp2dc default_conf 20 = 10"
    using step_mode_duty_cycle [OF step, of 20] by (simp add: default_conf_def)
  ultimately show ?thesis using step by simp
qed











lemma linear_fl_unfold:
  "fan_linear c \<Longrightarrow>
     fan_temp2dc_fl ops c t =
       py_min (Fin 100)
         (py_max (fl_add ops (fl_mul ops (fan_slope_fl ops c)
            (fl_sub ops (Fin t) (Fin (fan_lv0 c)))) (Fin 25)) (Fin 25))"
  by (simp add: fan_temp2dc_fl_def Let_def)

text \<open>
  At temperature lv3 the result is the rounded interpolation whenever that lies from 25
  to 100: it is 100 only if the product of the rounded slope and the span, plus 25,
  rounds to 100 (at lv0 = 35 and lv3 = 43.3 it rounds to 99.99999999999999).
\<close>

lemma linear_lv3_rounded:
  "fan_linear c \<Longrightarrow>
   fl_add ops (fl_mul ops (fan_slope_fl ops c)
     (fl_sub ops (Fin (fan_lv3 c)) (Fin (fan_lv0 c)))) (Fin 25) = Fin q \<Longrightarrow>
   25 \<le> q \<Longrightarrow> q \<le> 100 \<Longrightarrow>
   fan_temp2dc_fl ops c (fan_lv3 c) = Fin q"
  by (simp add: linear_fl_unfold py_min_def py_max_def)

text \<open>
  When the division overflows (a span so small that 75 divided by it is an infinity),
  the product with 0 at temperature lv0 is a NaN, \<^verbatim>\<open>max\<close> returns the NaN and
  \<^verbatim>\<open>min\<close> returns 100: the duty cycle at lv0 is then 100, not 25.
\<close>

lemma linear_lv0_overflow:
  "fan_linear c \<Longrightarrow>
   fan_slope_fl ops c = PosInf \<Longrightarrow>
   fl_sub ops (Fin (fan_lv0 c)) (Fin (fan_lv0 c)) = Fin 0 \<Longrightarrow>
   fl_mul ops PosInf (Fin 0) = NaN \<Longrightarrow>
   fl_add ops NaN (Fin 25) = NaN \<Longrightarrow>
   fan_temp2dc_fl ops c (fan_lv0 c) = Fin 100"
  by (simp add: linear_fl_unfold py_min_def py_max_def)




section \<open>Fan controller\<close>

lemma recomputes_append: "recomputes (xs @ ys) = recomputes xs @ recomputes ys"
  by (induction xs rule: recomputes.induct) simp_all

lemma pwm_writes_append: "pwm_writes (xs @ ys) = pwm_writes xs @ pwm_writes ys"
  by (induction xs rule: pwm_writes.induct) simp_all

lemma get_dc_cases:
  obtains (fan_off) "\<not> fan_on k" and "get_dc c k gc = (Inr (1 / 10), gc, [])"
  | (kept) r where "fan_on k" and "\<not> t_check k - cache_stamp gc > 5" and "get_dc c k gc = (r, gc, [])"
  | (recomputed) "fan_on k" and "t_check k - cache_stamp gc > 5"
      and "get_dc c k gc = (Inr (fan_temp2dc c (cpu_temp k)),
         \<lparr>cache_time = Some (t_stamp k), cache_dc = Some (fan_temp2dc c (cpu_temp k))\<rparr>,
         [Recompute (t_check k) (t_stamp k) (fan_temp2dc c (cpu_temp k))])"
  by (cases "fan_on k"; cases "t_check k - cache_stamp gc > 5"; cases "cache_dc gc")
     (auto simp: get_dc_def)

lemma change_dc_cases:
  obtains (unchanged) "ac = Some dc" and "change_dc dc ac = (ac, [])"
  | (written) "ac \<noteq> Some dc" and "change_dc dc ac = (Some dc, [PwmWrite (1 - dc / 100)])"
  by (cases "ac = Some dc") (auto simp: change_dc_def)

lemma running_recomputes:
  "successively (\<lambda>a b. fst b - snd a > 5) ((t0, cache_stamp gc) # recomputes (running c ks gc ac))"
proof (induction ks arbitrary: gc ac t0)
  case Nil
  then show ?case by simp
next
  case (Cons k ks)
  show ?case
  proof (cases rule: get_dc_cases [where k = k and gc = gc and c = c])
    case fan_off
    then show ?thesis
      using Cons [of t0 gc] by (cases rule: change_dc_cases [where ac = ac and dc = "1 / 10"]) (simp_all add: recomputes_append)
  next
    case (kept r)
    then show ?thesis
      using Cons [of t0 gc]
      by (cases r; cases rule: change_dc_cases [where ac = ac and dc = "projr r"]) (simp_all add: recomputes_append)
  next
    case recomputed
    let ?gc = "\<lparr>cache_time = Some (t_stamp k), cache_dc = Some (fan_temp2dc c (cpu_temp k))\<rparr>"
    have "cache_stamp ?gc = t_stamp k" by (simp add: cache_stamp_def)
    then show ?thesis
      using recomputed Cons [of "t_check k" ?gc]
      by (cases rule: change_dc_cases [where ac = ac and dc = "fan_temp2dc c (cpu_temp k)"]) (simp_all add: recomputes_append)
  qed
qed

lemma running_writes:
  "distinct_adj (applied_ratio ac @ pwm_writes (running c ks gc ac))"
proof (induction ks arbitrary: gc ac)
  case Nil
  then show ?case by (simp add: applied_ratio_def split: option.splits)
next
  case (Cons k ks)
  obtain r gc' evs where g: "get_dc c k gc = (r, gc', evs)" by (cases "get_dc c k gc")
  have evs: "pwm_writes evs = []"
    using g by (cases rule: get_dc_cases [where k = k and gc = gc and c = c]) auto
  show ?case
  proof (cases r)
    case (Inl e)
    then show ?thesis using g evs by (simp add: applied_ratio_def split: option.splits)
  next
    case (Inr dc)
    show ?thesis
    proof (cases rule: change_dc_cases [where ac = ac and dc = dc])
      case unchanged
      then show ?thesis using g Inr evs Cons [of ac gc'] by (simp add: pwm_writes_append)
    next
      case written
      then show ?thesis using g Inr evs Cons [of "Some dc" gc']
        by (cases ac) (simp_all add: pwm_writes_append applied_ratio_def)
    qed
  qed
qed


text \<open>
  Claim C5.  Over any sequence of polls, started from any state of the two caches, two
  consecutive recomputations are more than 5 seconds apart (hence at least 5): the clock
  reading tested at the later one exceeds by more than 5 the stamp stored at the earlier
  one, and the first recomputation is that far from the stamp found in the cache (0 when
  the cache is empty).  The PWM pin is written only with a value that differs from the
  previous write, and from the value the cache of \<^verbatim>\<open>change_dc\<close> holds at the start.
\<close>

theorem fan_rate_limit:
  "successively (\<lambda>a b. fst b - snd a > 5)
     ((t0, cache_stamp gc) # recomputes (running c ks gc ac)) \<and>
   distinct_adj (applied_ratio ac @ pwm_writes (running c ks gc ac))"
  using running_recomputes [of t0 gc c ks ac] running_writes [of ac c ks gc]
  by (rule conjI)

theorem fan_rate_limit_witness:
  "recomputes (running default_conf
      [\<lparr>fan_on = True, t_check = 100, t_stamp = 100, cpu_temp = 42\<rparr>,
       \<lparr>fan_on = True, t_check = 101, t_stamp = 101, cpu_temp = 60\<rparr>,
       \<lparr>fan_on = True, t_check = 105, t_stamp = 105, cpu_temp = 60\<rparr>,
       \<lparr>fan_on = True, t_check = 106, t_stamp = 106, cpu_temp = 60\<rparr>,
       \<lparr>fan_on = True, t_check = 112, t_stamp = 112, cpu_temp = 60\<rparr>] empty_cache None)
     = [(100, 100), (106, 106), (112, 112)] \<and>
   pwm_writes (running default_conf
      [\<lparr>fan_on = True, t_check = 100, t_stamp = 100, cpu_temp = 42\<rparr>,
       \<lparr>fan_on = True, t_check = 101, t_stamp = 101, cpu_temp = 60\<rparr>,
       \<lparr>fan_on = True, t_check = 105, t_stamp = 105, cpu_temp = 60\<rparr>,
       \<lparr>fan_on = True, t_check = 106, t_stamp = 106, cpu_temp = 60\<rparr>,
       \<lparr>fan_on = True, t_check = 112, t_stamp = 112, cpu_temp = 60\<rparr>] empty_cache None)
     = [1 / 2, 0] \<and>
   successively (\<lambda>a b. fst b - snd a > 5) [(0, 0), (100, 100), (106, 106), (112, 112 :: real)] \<and>
   distinct_adj [1 / 2, 0 :: real]"
proof -
  let ?ks = "[\<lparr>fan_on = True, t_check = 100, t_stamp = 100, cpu_temp = 42\<rparr>,
       \<lparr>fan_on = True, t_check = 101, t_stamp = 101, cpu_temp = 60\<rparr>,
       \<lparr>fan_on = True, t_check = 105, t_stamp = 105, cpu_temp = 60\<rparr>,
       \<lparr>fan_on = True, t_check = 106, t_stamp = 106, cpu_temp = 60\<rparr>,
       \<lparr>fan_on = True, t_check = 112, t_stamp = 112, cpu_temp = 60\<rparr>]"
  have dc: "fan_temp2dc default_conf 42 = 50" "fan_temp2dc default_conf 60 = 100"
    by (simp_all add: fan_temp2dc_def lv2dc_def default_conf_def)
  have r: "recomputes (running default_conf ?ks empty_cache None)
      = [(100, 100), (106, 106), (112, 112)]"
    by (simp add: get_dc_def change_dc_def cache_stamp_def empty_cache_def dc)
  have w: "pwm_writes (running default_conf ?ks empty_cache None) = [1 / 2, 0]"
    by (simp add: get_dc_def change_dc_def cache_stamp_def empty_cache_def dc)
  show ?thesis
    using fan_rate_limit [of 0 empty_cache default_conf ?ks None]
    unfolding r w by (simp add: cache_stamp_def empty_cache_def applied_ratio_def)
qed

section \<open>Gesture recognizer\<close>

lemma default_sizes: "press_size default_conf = 18" "twice_wait default_conf = 7"
  by (simp_all add: press_size_def twice_wait_def default_conf_def)

text \<open>The sequences of the specification's tests, at the default thresholds.\<close>

lemma read_key_examples:
  "read_key (key_pattern 18 7) 18 (True # replicate 18 False)
     = Some (Press, ''1000000000000000000'', [])"
  "read_key (key_pattern 18 7) 18 [True, False, True, False, True, True, True]
     = Some (Twice, ''1010111'', [])"
  "read_key (key_pattern 18 7) 18 (True # False # replicate 7 True)
     = Some (Click, ''101111111'', [])"
  by code_simp+


lemma read_key_loop_window:
  "read_key_loop pattern sz s samples = Some (t, w, rest) \<Longrightarrow>
     match_first pattern w = Some t \<and> w \<in> set (windows sz s samples)"
  by (induction samples arbitrary: s) (auto simp: Let_def split: option.splits)




lemma length_last_chars: "0 < sz \<Longrightarrow> length (last_chars sz s) = min sz (length s)"
  by (simp add: last_chars_def)

lemma length_window_step: "0 < sz \<Longrightarrow> length (window_step sz s b) = min sz (length s) + 1"
  by (simp add: window_step_def length_last_chars str_read_def)

lemma windows_bounded:
  "0 < sz \<Longrightarrow> w \<in> set (windows sz s samples) \<Longrightarrow> length w \<le> sz + 1"
  by (induction samples arbitrary: s) (auto simp: length_window_step)

lemma windows_full:
  "0 < sz \<Longrightarrow> samples \<noteq> [] \<Longrightarrow>
     length (last (windows sz s samples)) = min sz (length s + length samples - 1) + 1"
proof (induction samples arbitrary: s)
  case Nil
  then show ?case by simp
next
  case (Cons b bs)
  show ?case
  proof (cases bs)
    case Nil
    then show ?thesis using Cons.prems by (simp add: length_window_step)
  next
    case (Cons b' bs')
    then have "windows sz (window_step sz s b) bs \<noteq> []" by simp
    then show ?thesis
      using Cons.IH [of "window_step sz s b"] Cons.prems Cons
      by (auto simp: length_window_step min_def)
  qed
qed

text \<open>
  Claim C9, as stated, fails: at the default press threshold the capacity is 18 samples,
  and the window in which a long press is recognised holds 19 characters.
\<close>

theorem window_length_counterexample:
  "press_size default_conf = 18 \<and>
   read_key (key_pattern (press_size default_conf) (twice_wait default_conf))
      (press_size default_conf) (True # replicate 18 False)
     = Some (Press, ''1000000000000000000'', []) \<and>
   length ''1000000000000000000'' = 19"
  by (simp only: default_sizes read_key_examples) simp

text \<open>
  Claim C9, amended.  The window is rebuilt at every sample by keeping its last
  \<open>size\<close> characters and appending the newest bit, where \<open>size\<close> is the press
  threshold in samples; for a threshold of at least one sample its length never exceeds
  \<open>size + 1\<close>, and it is \<open>size + 1\<close> once more than \<open>size\<close> samples have been
  read.
\<close>

theorem window_length_bound:
  "0 < sz \<Longrightarrow>
     window_step sz s b = drop (length s - sz) s @ str_read b \<and>
     (\<forall>w \<in> set (windows sz [] samples). length w \<le> sz + 1) \<and>
     (sz < length samples \<longrightarrow> length (last (windows sz [] samples)) = sz + 1) \<and>
     (read_key pattern sz samples = Some (t, w, rest) \<longrightarrow> length w \<le> sz + 1)"
proof (intro conjI ballI impI)
  assume sz: "0 < sz"
  then show "window_step sz s b = drop (length s - sz) s @ str_read b"
    by (simp add: window_step_def last_chars_def)
  show "length w' \<le> sz + 1" if "w' \<in> set (windows sz [] samples)" for w'
    using sz that by (rule windows_bounded)
  show "length (last (windows sz [] samples)) = sz + 1" if "sz < length samples"
  proof -
    from that have "samples \<noteq> []" by auto
    from windows_full [OF sz this, of "[]"] that show ?thesis by simp
  qed
  show "length w \<le> sz + 1" if "read_key pattern sz samples = Some (t, w, rest)"
  proof -
    from that have "w \<in> set (windows sz [] samples)"
      using read_key_loop_window [of pattern sz "[]" samples t w rest]
      by (simp add: read_key_def)
    with sz show ?thesis by (rule windows_bounded)
  qed
qed

theorem window_length_bound_witness:
  "(0::nat) < 18 \<and>
   window_step 18 ''0000000000000000001'' False = ''0000000000000000010'' \<and>
   read_key (key_pattern 18 7) 18 (True # replicate 18 False)
     = Some (Press, ''1000000000000000000'', []) \<and>
   length ''1000000000000000000'' \<le> 18 + 1 \<and>
   length (last (windows 18 [] (replicate 19 False))) = 18 + 1"
proof -
  have pos: "(0::nat) < 18" by simp
  note r = read_key_examples(1)
  have "window_step 18 ''0000000000000000001'' False = ''0000000000000000010''"
    using window_length_bound [OF pos, of "''0000000000000000001''" False]
    by (simp add: str_read_def)
  moreover have "length ''1000000000000000000'' \<le> 18 + 1" by simp
  moreover have "length (last (windows 18 [] (replicate 19 False))) = 18 + 1"
    using window_length_bound [OF pos, of _ _ "replicate 19 False"] by simp
  ultimately show ?thesis using r by simp
qed

section \<open>Metrics sampler\<close>

lemma interface_rate_simps:
  "interface_rate cur prev 0 = Inl ZeroDivisionError"
  "d \<noteq> 0 \<Longrightarrow> interface_rate cur prev d = Inr (real_of_int (cur - prev) / d / (1024 * 1024))"
  by (simp_all add: interface_rate_def py_div_def)

lemma disk_rate_simps:
  "disk_rate cur prev 0 ss = Inl ZeroDivisionError"
  "disk_rate cur prev d 0 = Inl ZeroDivisionError"
  "d \<noteq> 0 \<Longrightarrow> ss \<noteq> 0 \<Longrightarrow>
     disk_rate cur prev d ss = Inr (real_of_int (cur - prev) / d / (1024 / real_of_int ss) / 1024)"
  by (simp_all add: disk_rate_def py_div_def)

text \<open>The disk rate is the rate of the bytes moved: sectors times the sector size, per
  second and per 1024 * 1024.\<close>

lemma disk_rate_bytes:
  "ss \<noteq> 0 \<Longrightarrow>
     real_of_int delta / d / (1024 / real_of_int ss) / 1024
       = real_of_int (delta * ss) / d / (1024 * 1024)"
  by simp

lemma get_interface_io_rate_first:
  "raw_interface_io m i = None \<Longrightarrow>
     get_interface_io_rate i raw m =
       (Inr \<lparr>rate_rx = 0, rate_tx = 0\<rparr>,
        m\<lparr>interface_io_rate := (interface_io_rate m)(i \<mapsto> \<lparr>rate_rx = 0, rate_tx = 0\<rparr>),
          raw_interface_io := (raw_interface_io m)(i \<mapsto> raw)\<rparr>)"
  by (simp add: get_interface_io_rate_def Let_def)

lemma get_interface_io_rate_zero:
  "raw_interface_io m i = Some prev \<Longrightarrow> raw_time raw - raw_time prev = 0 \<Longrightarrow>
     get_interface_io_rate i raw m = (Inl ZeroDivisionError, m)"
  by (simp add: get_interface_io_rate_def interface_rate_simps)

lemma get_interface_io_rate_nonzero:
  "raw_interface_io m i = Some prev \<Longrightarrow> raw_time raw - raw_time prev \<noteq> 0 \<Longrightarrow>
     get_interface_io_rate i raw m =
       (Inr \<lparr>rate_rx = real_of_int (raw_rx raw - raw_rx prev) / (raw_time raw - raw_time prev)
                 / (1024 * 1024),
             rate_tx = real_of_int (raw_tx raw - raw_tx prev) / (raw_time raw - raw_time prev)
                 / (1024 * 1024)\<rparr>,
        m\<lparr>interface_io_rate := (interface_io_rate m)(i \<mapsto>
            \<lparr>rate_rx = real_of_int (raw_rx raw - raw_rx prev) / (raw_time raw - raw_time prev)
                 / (1024 * 1024),
             rate_tx = real_of_int (raw_tx raw - raw_tx prev) / (raw_time raw - raw_time prev)
                 / (1024 * 1024)\<rparr>),
          raw_interface_io := (raw_interface_io m)(i \<mapsto> raw)\<rparr>)"
  by (simp add: get_interface_io_rate_def interface_rate_simps Let_def)

lemma get_disk_io_rate_first:
  "raw_disk_io m (delete_disk_partition_number d) = None \<Longrightarrow>
     fst (get_disk_io_rate d hw raw m) = Inr \<lparr>rate_rx = 0, rate_tx = 0\<rparr> \<and>
     disk_io_rate (snd (get_disk_io_rate d hw raw m)) =
       (disk_io_rate m)(delete_disk_partition_number d \<mapsto> \<lparr>rate_rx = 0, rate_tx = 0\<rparr>) \<and>
     raw_disk_io (snd (get_disk_io_rate d hw raw m)) =
       (raw_disk_io m)(delete_disk_partition_number d \<mapsto> raw)"
  by (simp add: get_disk_io_rate_def Let_def)

lemma get_disk_io_rate_zero:
  "raw_disk_io m (delete_disk_partition_number d) = Some prev \<Longrightarrow>
   raw_time raw - raw_time prev = 0 \<Longrightarrow>
     fst (get_disk_io_rate d hw raw m) = Inl ZeroDivisionError \<and>
     disk_io_rate (snd (get_disk_io_rate d hw raw m)) = disk_io_rate m \<and>
     raw_disk_io (snd (get_disk_io_rate d hw raw m)) = raw_disk_io m"
  by (simp add: get_disk_io_rate_def disk_rate_simps Let_def)

lemma get_disk_io_rate_nonzero:
  "raw_disk_io m (delete_disk_partition_number d) = Some prev \<Longrightarrow>
   raw_time raw - raw_time prev \<noteq> 0 \<Longrightarrow>
   effective_sector_size m (delete_disk_partition_number d) hw \<noteq> 0 \<Longrightarrow>
     fst (get_disk_io_rate d hw raw m) =
       Inr \<lparr>rate_rx = real_of_int (raw_rx raw - raw_rx prev) / (raw_time raw - raw_time prev)
                 / (1024 / real_of_int (effective_sector_size m (delete_disk_partition_number d) hw))
                 / 1024,
            rate_tx = real_of_int (raw_tx raw - raw_tx prev) / (raw_time raw - raw_time prev)
                 / (1024 / real_of_int (effective_sector_size m (delete_disk_partition_number d) hw))
                 / 1024\<rparr> \<and>
     disk_io_rate (snd (get_disk_io_rate d hw raw m)) =
       (disk_io_rate m)(delete_disk_partition_number d \<mapsto>
          \<lparr>rate_rx = real_of_int (raw_rx raw - raw_rx prev) / (raw_time raw - raw_time prev)
                 / (1024 / real_of_int (effective_sector_size m (delete_disk_partition_number d) hw))
                 / 1024,
            rate_tx = real_of_int (raw_tx raw - raw_tx prev) / (raw_time raw - raw_time prev)
                 / (1024 / real_of_int (effective_sector_size m (delete_disk_partition_number d) hw))
                 / 1024\<rparr>) \<and>
     raw_disk_io (snd (get_disk_io_rate d hw raw m)) =
       (raw_disk_io m)(delete_disk_partition_number d \<mapsto> raw)"
  by (cases "disk_sector_sizes m (delete_disk_partition_number d)")
     (simp_all add: get_disk_io_rate_def disk_rate_simps Let_def effective_sector_size_def)

lemma delete_partition_sda1: "delete_disk_partition_number ''sda1'' = ''sda''"
  by code_simp

text \<open>
  Claim C8, as stated, fails.  With the sample of \<^verbatim>\<open>eth0\<close> cached at clock reading 20, a
  second sample taken at the same reading returns no rate: the call raises
  \<^verbatim>\<open>ZeroDivisionError\<close>, and the cached sample is still the old one, not the current one.
\<close>

theorem rate_sample_counterexample:
  "get_interface_io_rate ''eth0'' \<lparr>raw_rx = 700, raw_tx = 900, raw_time = 20\<rparr>
     (no_metrics\<lparr>interface_io_rate := [''eth0'' \<mapsto> \<lparr>rate_rx = 0, rate_tx = 0\<rparr>],
        raw_interface_io := [''eth0'' \<mapsto> \<lparr>raw_rx = 300, raw_tx = 400, raw_time = 20\<rparr>]\<rparr>)
     = (Inl ZeroDivisionError,
        no_metrics\<lparr>interface_io_rate := [''eth0'' \<mapsto> \<lparr>rate_rx = 0, rate_tx = 0\<rparr>],
          raw_interface_io := [''eth0'' \<mapsto> \<lparr>raw_rx = 300, raw_tx = 400, raw_time = 20\<rparr>]\<rparr>) \<and>
   raw_interface_io (snd (get_interface_io_rate ''eth0''
       \<lparr>raw_rx = 700, raw_tx = 900, raw_time = 20\<rparr>
       (no_metrics\<lparr>interface_io_rate := [''eth0'' \<mapsto> \<lparr>rate_rx = 0, rate_tx = 0\<rparr>],
          raw_interface_io := [''eth0'' \<mapsto> \<lparr>raw_rx = 300, raw_tx = 400, raw_time = 20\<rparr>]\<rparr>)))
       ''eth0''
     = Some \<lparr>raw_rx = 300, raw_tx = 400, raw_time = 20\<rparr> \<and>
   raw_interface_io (snd (get_interface_io_rate ''eth0''
       \<lparr>raw_rx = 700, raw_tx = 900, raw_time = 20\<rparr>
       (no_metrics\<lparr>interface_io_rate := [''eth0'' \<mapsto> \<lparr>rate_rx = 0, rate_tx = 0\<rparr>],
          raw_interface_io := [''eth0'' \<mapsto> \<lparr>raw_rx = 300, raw_tx = 400, raw_time = 20\<rparr>]\<rparr>)))
       ''eth0''
     \<noteq> Some \<lparr>raw_rx = 700, raw_tx = 900, raw_time = 20\<rparr>"
  by (simp add: get_interface_io_rate_def interface_rate_def py_div_def no_metrics_def)

text \<open>
  Claim C8, amended.  For every device, a network interface or a disk: the first sample
  returns the rates 0 and 0; a later sample whose clock reading differs from the cached
  one returns, for each counter, the difference of the raw values divided by the elapsed
  time and by 1024 * 1024 (for a disk the difference in sectors divided by the elapsed
  time, by 1024 / sector size and by 1024, the sector size not being 0, which is the
  rate of the bytes by \<open>disk_rate_bytes\<close>); in both of these cases the rates are stored
  and the cached sample is replaced by the current one.  When the elapsed time is exactly 0 the
  call raises \<^verbatim>\<open>ZeroDivisionError\<close> instead, and the cached sample and the stored rates
  stay as they were.
\<close>

theorem rate_sample:
  "(raw_interface_io m i = None \<longrightarrow>
      get_interface_io_rate i raw m =
        (Inr \<lparr>rate_rx = 0, rate_tx = 0\<rparr>,
         m\<lparr>interface_io_rate := (interface_io_rate m)(i \<mapsto> \<lparr>rate_rx = 0, rate_tx = 0\<rparr>),
           raw_interface_io := (raw_interface_io m)(i \<mapsto> raw)\<rparr>)) \<and>
   (raw_interface_io m i = Some prev \<and> raw_time raw - raw_time prev \<noteq> 0 \<longrightarrow>
      get_interface_io_rate i raw m =
        (Inr \<lparr>rate_rx = real_of_int (raw_rx raw - raw_rx prev) / (raw_time raw - raw_time prev)
                  / (1024 * 1024),
              rate_tx = real_of_int (raw_tx raw - raw_tx prev) / (raw_time raw - raw_time prev)
                  / (1024 * 1024)\<rparr>,
         m\<lparr>interface_io_rate := (interface_io_rate m)(i \<mapsto>
             \<lparr>rate_rx = real_of_int (raw_rx raw - raw_rx prev) / (raw_time raw - raw_time prev)
                  / (1024 * 1024),
              rate_tx = real_of_int (raw_tx raw - raw_tx prev) / (raw_time raw - raw_time prev)
                  / (1024 * 1024)\<rparr>),
           raw_interface_io := (raw_interface_io m)(i \<mapsto> raw)\<rparr>)) \<and>
   (raw_interface_io m i = Some prev \<and> raw_time raw - raw_time prev = 0 \<longrightarrow>
      get_interface_io_rate i raw m = (Inl ZeroDivisionError, m)) \<and>
   (raw_disk_io m (delete_disk_partition_number d) = None \<longrightarrow>
      fst (get_disk_io_rate d hw draw m) = Inr \<lparr>rate_rx = 0, rate_tx = 0\<rparr> \<and>
      disk_io_rate (snd (get_disk_io_rate d hw draw m)) =
        (disk_io_rate m)(delete_disk_partition_number d \<mapsto> \<lparr>rate_rx = 0, rate_tx = 0\<rparr>) \<and>
      raw_disk_io (snd (get_disk_io_rate d hw draw m)) =
        (raw_disk_io m)(delete_disk_partition_number d \<mapsto> draw)) \<and>
   (raw_disk_io m (delete_disk_partition_number d) = Some dprev \<and>
    raw_time draw - raw_time dprev \<noteq> 0 \<and>
    effective_sector_size m (delete_disk_partition_number d) hw \<noteq> 0 \<longrightarrow>
      fst (get_disk_io_rate d hw draw m) =
        Inr \<lparr>rate_rx = real_of_int (raw_rx draw - raw_rx dprev) / (raw_time draw - raw_time dprev)
                 / (1024 / real_of_int (effective_sector_size m (delete_disk_partition_number d) hw))
                 / 1024,
             rate_tx = real_of_int (raw_tx draw - raw_tx dprev) / (raw_time draw - raw_time dprev)
                 / (1024 / real_of_int (effective_sector_size m (delete_disk_partition_number d) hw))
                 / 1024\<rparr> \<and>
      disk_io_rate (snd (get_disk_io_rate d hw draw m)) =
        (disk_io_rate m)(delete_disk_partition_number d \<mapsto>
           \<lparr>rate_rx = real_of_int (raw_rx draw - raw_rx dprev) / (raw_time draw - raw_time dprev)
                 / (1024 / real_of_int (effective_sector_size m (delete_disk_partition_number d) hw))
                 / 1024,
             rate_tx = real_of_int (raw_tx draw - raw_tx dprev) / (raw_time draw - raw_time dprev)
                 / (1024 / real_of_int (effective_sector_size m (delete_disk_partition_number d) hw))
                 / 1024\<rparr>) \<and>
      raw_disk_io (snd (get_disk_io_rate d hw draw m)) =
        (raw_disk_io m)(delete_disk_partition_number d \<mapsto> draw)) \<and>
   (raw_disk_io m (delete_disk_partition_number d) = Some dprev \<and>
    raw_time draw - raw_time dprev = 0 \<longrightarrow>
      fst (get_disk_io_rate d hw draw m) = Inl ZeroDivisionError \<and>
      disk_io_rate (snd (get_disk_io_rate d hw draw m)) = disk_io_rate m \<and>
      raw_disk_io (snd (get_disk_io_rate d hw draw m)) = raw_disk_io m)"
  using get_interface_io_rate_first [of m i raw]
    get_interface_io_rate_nonzero [of m i prev raw]
    get_interface_io_rate_zero [of m i prev raw]
    get_disk_io_rate_first [of m d hw draw]
    get_disk_io_rate_nonzero [of m d dprev draw hw]
    get_disk_io_rate_zero [of m d dprev draw hw]
  by blast

theorem rate_sample_witness:
  "get_interface_io_rate ''eth0'' \<lparr>raw_rx = 1000, raw_tx = 2000, raw_time = 10\<rparr> no_metrics =
     (Inr \<lparr>rate_rx = 0, rate_tx = 0\<rparr>,
      no_metrics\<lparr>interface_io_rate := [''eth0'' \<mapsto> \<lparr>rate_rx = 0, rate_tx = 0\<rparr>],
        raw_interface_io := [''eth0'' \<mapsto> \<lparr>raw_rx = 1000, raw_tx = 2000, raw_time = 10\<rparr>]\<rparr>) \<and>
   get_interface_io_rate ''eth0'' \<lparr>raw_rx = 2098152, raw_tx = 1050576, raw_time = 12\<rparr>
     (no_metrics\<lparr>interface_io_rate := [''eth0'' \<mapsto> \<lparr>rate_rx = 0, rate_tx = 0\<rparr>],
        raw_interface_io := [''eth0'' \<mapsto> \<lparr>raw_rx = 1000, raw_tx = 2000, raw_time = 10\<rparr>]\<rparr>) =
     (Inr \<lparr>rate_rx = 1, rate_tx = 1 / 2\<rparr>,
      no_metrics\<lparr>interface_io_rate := [''eth0'' \<mapsto> \<lparr>rate_rx = 1, rate_tx = 1 / 2\<rparr>],
        raw_interface_io := [''eth0'' \<mapsto> \<lparr>raw_rx = 2098152, raw_tx = 1050576, raw_time = 12\<rparr>]\<rparr>) \<and>
   get_interface_io_rate ''eth0'' \<lparr>raw_rx = 5000, raw_tx = 6000, raw_time = 10\<rparr>
     (no_metrics\<lparr>interface_io_rate := [''eth0'' \<mapsto> \<lparr>rate_rx = 0, rate_tx = 0\<rparr>],
        raw_interface_io := [''eth0'' \<mapsto> \<lparr>raw_rx = 1000, raw_tx = 2000, raw_time = 10\<rparr>]\<rparr>) =
     (Inl ZeroDivisionError,
      no_metrics\<lparr>interface_io_rate := [''eth0'' \<mapsto> \<lparr>rate_rx = 0, rate_tx = 0\<rparr>],
        raw_interface_io := [''eth0'' \<mapsto> \<lparr>raw_rx = 1000, raw_tx = 2000, raw_time = 10\<rparr>]\<rparr>) \<and>
   fst (get_disk_io_rate ''sda1'' 512 \<lparr>raw_rx = 1000, raw_tx = 2000, raw_time = 10\<rparr> no_metrics) = Inr \<lparr>rate_rx = 0, rate_tx = 0\<rparr> \<and>
   raw_disk_io (snd (get_disk_io_rate ''sda1'' 512 \<lparr>raw_rx = 1000, raw_tx = 2000, raw_time = 10\<rparr> no_metrics)) ''sda'' = Some \<lparr>raw_rx = 1000, raw_tx = 2000, raw_time = 10\<rparr> \<and>
   fst (get_disk_io_rate ''sda1'' 512 \<lparr>raw_rx = 5096, raw_tx = 4048, raw_time = 12\<rparr>
     (no_metrics\<lparr>disk_io_rate := [''sda'' \<mapsto> \<lparr>rate_rx = 0, rate_tx = 0\<rparr>],
        raw_disk_io := [''sda'' \<mapsto> \<lparr>raw_rx = 1000, raw_tx = 2000, raw_time = 10\<rparr>],
        disk_sector_sizes := [''sda'' \<mapsto> 512]\<rparr>)) = Inr \<lparr>rate_rx = 1, rate_tx = 1 / 2\<rparr> \<and>
   raw_disk_io (snd (get_disk_io_rate ''sda1'' 512 \<lparr>raw_rx = 5096, raw_tx = 4048, raw_time = 12\<rparr>
     (no_metrics\<lparr>disk_io_rate := [''sda'' \<mapsto> \<lparr>rate_rx = 0, rate_tx = 0\<rparr>],
        raw_disk_io := [''sda'' \<mapsto> \<lparr>raw_rx = 1000, raw_tx = 2000, raw_time = 10\<rparr>],
        disk_sector_sizes := [''sda'' \<mapsto> 512]\<rparr>))) ''sda'' = Some \<lparr>raw_rx = 5096, raw_tx = 4048, raw_time = 12\<rparr> \<and>
   fst (get_disk_io_rate ''sda1'' 512 \<lparr>raw_rx = 5000, raw_tx = 6000, raw_time = 10\<rparr>
     (no_metrics\<lparr>disk_io_rate := [''sda'' \<mapsto> \<lparr>rate_rx = 0, rate_tx = 0\<rparr>],
        raw_disk_io := [''sda'' \<mapsto> \<lparr>raw_rx = 1000, raw_tx = 2000, raw_time = 10\<rparr>],
        disk_sector_sizes := [''sda'' \<mapsto> 512]\<rparr>)) = Inl ZeroDivisionError \<and>
   raw_disk_io (snd (get_disk_io_rate ''sda1'' 512 \<lparr>raw_rx = 5000, raw_tx = 6000, raw_time = 10\<rparr>
     (no_metrics\<lparr>disk_io_rate := [''sda'' \<mapsto> \<lparr>rate_rx = 0, rate_tx = 0\<rparr>],
        raw_disk_io := [''sda'' \<mapsto> \<lparr>raw_rx = 1000, raw_tx = 2000, raw_time = 10\<rparr>],
        disk_sector_sizes := [''sda'' \<mapsto> 512]\<rparr>))) ''sda'' = Some \<lparr>raw_rx = 1000, raw_tx = 2000, raw_time = 10\<rparr>"
proof -
  let ?r1 = "\<lparr>raw_rx = 1000, raw_tx = 2000, raw_time = 10\<rparr>"
  let ?r2i = "\<lparr>raw_rx = 2098152, raw_tx = 1050576, raw_time = 12\<rparr>"
  let ?r2d = "\<lparr>raw_rx = 5096, raw_tx = 4048, raw_time = 12\<rparr>"
  let ?r0 = "\<lparr>raw_rx = 5000, raw_tx = 6000, raw_time = 10\<rparr>"
  let ?mi = "no_metrics\<lparr>interface_io_rate := [''eth0'' \<mapsto> \<lparr>rate_rx = 0, rate_tx = 0\<rparr>],
        raw_interface_io := [''eth0'' \<mapsto> \<lparr>raw_rx = 1000, raw_tx = 2000, raw_time = 10\<rparr>]\<rparr>"
  let ?md = "no_metrics\<lparr>disk_io_rate := [''sda'' \<mapsto> \<lparr>rate_rx = 0, rate_tx = 0\<rparr>],
        raw_disk_io := [''sda'' \<mapsto> \<lparr>raw_rx = 1000, raw_tx = 2000, raw_time = 10\<rparr>],
        disk_sector_sizes := [''sda'' \<mapsto> 512]\<rparr>"
  note sda = delete_partition_sda1
  have i_first: "raw_interface_io no_metrics ''eth0'' = None"
    and d_first: "raw_disk_io no_metrics (delete_disk_partition_number ''sda1'') = None"
    by (simp_all add: no_metrics_def)
  have i_later: "raw_interface_io ?mi ''eth0'' = Some ?r1 \<and> raw_time ?r2i - raw_time ?r1 \<noteq> 0"
    and i_zero: "raw_interface_io ?mi ''eth0'' = Some ?r1 \<and> raw_time ?r0 - raw_time ?r1 = 0"
    by simp_all
  have d_later: "raw_disk_io ?md (delete_disk_partition_number ''sda1'') = Some ?r1 \<and>
      raw_time ?r2d - raw_time ?r1 \<noteq> 0 \<and>
      effective_sector_size ?md (delete_disk_partition_number ''sda1'') 512 \<noteq> 0"
    and d_zero: "raw_disk_io ?md (delete_disk_partition_number ''sda1'') = Some ?r1 \<and>
      raw_time ?r0 - raw_time ?r1 = 0"
    and ess: "effective_sector_size ?md ''sda'' 512 = 512"
    by (simp_all add: sda effective_sector_size_def)
  have "get_interface_io_rate ''eth0'' ?r1 no_metrics = (Inr \<lparr>rate_rx = 0, rate_tx = 0\<rparr>, ?mi)"
    using rate_sample [where m = no_metrics and i = "''eth0''" and raw = ?r1] i_first
    by (simp add: no_metrics_def)
  moreover have "get_interface_io_rate ''eth0'' ?r2i ?mi =
     (Inr \<lparr>rate_rx = 1, rate_tx = 1 / 2\<rparr>,
      no_metrics\<lparr>interface_io_rate := [''eth0'' \<mapsto> \<lparr>rate_rx = 1, rate_tx = 1 / 2\<rparr>],
        raw_interface_io := [''eth0'' \<mapsto> ?r2i]\<rparr>)"
    using rate_sample [where m = ?mi and i = "''eth0''" and raw = ?r2i and prev = ?r1] i_later
    by (simp add: no_metrics_def)
  moreover have "get_interface_io_rate ''eth0'' ?r0 ?mi = (Inl ZeroDivisionError, ?mi)"
    using rate_sample [where m = ?mi and i = "''eth0''" and raw = ?r0 and prev = ?r1] i_zero
    by blast
  moreover have "fst (get_disk_io_rate ''sda1'' 512 ?r1 no_metrics) = Inr \<lparr>rate_rx = 0, rate_tx = 0\<rparr>"
    "raw_disk_io (snd (get_disk_io_rate ''sda1'' 512 ?r1 no_metrics)) ''sda'' = Some ?r1"
    using rate_sample [where m = no_metrics and d = "''sda1''" and draw = ?r1 and hw = 512] d_first
    by (simp_all add: sda)
  moreover have "fst (get_disk_io_rate ''sda1'' 512 ?r2d ?md) = Inr \<lparr>rate_rx = 1, rate_tx = 1 / 2\<rparr>"
    "raw_disk_io (snd (get_disk_io_rate ''sda1'' 512 ?r2d ?md)) ''sda'' = Some ?r2d"
    using rate_sample [where m = ?md and d = "''sda1''" and draw = ?r2d and dprev = ?r1
        and hw = 512] d_later
    by (simp_all add: sda ess)
  moreover have "fst (get_disk_io_rate ''sda1'' 512 ?r0 ?md) = Inl ZeroDivisionError"
    "raw_disk_io (snd (get_disk_io_rate ''sda1'' 512 ?r0 ?md)) ''sda'' = Some ?r1"
    using rate_sample [where m = ?md and d = "''sda1''" and draw = ?r0 and dprev = ?r1
        and hw = 512] d_zero
    by (simp_all add: sda)
  ultimately show ?thesis by (intro conjI)
qed

text \<open>
  Claim C2, as stated, fails.  With the sample of \<^verbatim>\<open>eth0\<close> cached at clock reading 10
  and rates 1 and 2 stored, a sample at the same reading divides by zero
  (\<^verbatim>\<open>ZeroDivisionError\<close>), and a sample at the earlier reading 9 overwrites the stored
  rates with negative ones.  The same holds for the disk \<^verbatim>\<open>sda\<close>.
\<close>

theorem elapsed_nonpositive_counterexample:
  "get_interface_io_rate ''eth0'' \<lparr>raw_rx = 5000, raw_tx = 6000, raw_time = 10\<rparr>
     (no_metrics\<lparr>interface_io_rate := [''eth0'' \<mapsto> \<lparr>rate_rx = 1, rate_tx = 2\<rparr>],
        raw_interface_io := [''eth0'' \<mapsto> \<lparr>raw_rx = 1000, raw_tx = 2000, raw_time = 10\<rparr>]\<rparr>)
     = (Inl ZeroDivisionError,
        no_metrics\<lparr>interface_io_rate := [''eth0'' \<mapsto> \<lparr>rate_rx = 1, rate_tx = 2\<rparr>],
          raw_interface_io := [''eth0'' \<mapsto> \<lparr>raw_rx = 1000, raw_tx = 2000, raw_time = 10\<rparr>]\<rparr>) \<and>
   interface_io_rate (snd (get_interface_io_rate ''eth0''
       \<lparr>raw_rx = 1049576, raw_tx = 2099152, raw_time = 9\<rparr>
       (no_metrics\<lparr>interface_io_rate := [''eth0'' \<mapsto> \<lparr>rate_rx = 1, rate_tx = 2\<rparr>],
          raw_interface_io := [''eth0'' \<mapsto> \<lparr>raw_rx = 1000, raw_tx = 2000, raw_time = 10\<rparr>]\<rparr>)))
       ''eth0''
     = Some \<lparr>rate_rx = - 1, rate_tx = - 2\<rparr> \<and>
   fst (get_disk_io_rate ''sda1'' 512 \<lparr>raw_rx = 5000, raw_tx = 6000, raw_time = 10\<rparr>
     (no_metrics\<lparr>disk_io_rate := [''sda'' \<mapsto> \<lparr>rate_rx = 1, rate_tx = 2\<rparr>],
        raw_disk_io := [''sda'' \<mapsto> \<lparr>raw_rx = 1000, raw_tx = 2000, raw_time = 10\<rparr>],
        disk_sector_sizes := [''sda'' \<mapsto> 512]\<rparr>))
     = Inl ZeroDivisionError \<and>
   disk_io_rate (snd (get_disk_io_rate ''sda1'' 512
       \<lparr>raw_rx = 3048, raw_tx = 6096, raw_time = 9\<rparr>
       (no_metrics\<lparr>disk_io_rate := [''sda'' \<mapsto> \<lparr>rate_rx = 1, rate_tx = 2\<rparr>],
          raw_disk_io := [''sda'' \<mapsto> \<lparr>raw_rx = 1000, raw_tx = 2000, raw_time = 10\<rparr>],
          disk_sector_sizes := [''sda'' \<mapsto> 512]\<rparr>)))
       ''sda''
     = Some \<lparr>rate_rx = - 1, rate_tx = - 2\<rparr>"
  by (simp add: get_interface_io_rate_def interface_rate_def get_disk_io_rate_def disk_rate_def
      py_div_def no_metrics_def delete_partition_sda1 Let_def)

text \<open>
  Claim C2, amended.  For a device that has a previous sample cached, an interface or a
  disk, each on its own: when the elapsed time is zero the rate computation divides by
  zero, the call raises \<^verbatim>\<open>ZeroDivisionError\<close>, and the stored rates and the cached
  sample stay as they were; when the elapsed time is negative no division by zero occurs
  (for a disk, given a nonzero sector size) and the stored rates are replaced by the
  quotients of the counter differences and the negative elapsed time.
\<close>

theorem elapsed_nonpositive:
  "(raw_interface_io m i = Some prev \<and> raw_time raw - raw_time prev = 0 \<longrightarrow>
      get_interface_io_rate i raw m = (Inl ZeroDivisionError, m)) \<and>
   (raw_interface_io m i = Some prev \<and> raw_time raw - raw_time prev < 0 \<longrightarrow>
      fst (get_interface_io_rate i raw m) =
        Inr \<lparr>rate_rx = real_of_int (raw_rx raw - raw_rx prev) / (raw_time raw - raw_time prev)
                 / (1024 * 1024),
             rate_tx = real_of_int (raw_tx raw - raw_tx prev) / (raw_time raw - raw_time prev)
                 / (1024 * 1024)\<rparr> \<and>
      interface_io_rate (snd (get_interface_io_rate i raw m)) i =
        Some \<lparr>rate_rx = real_of_int (raw_rx raw - raw_rx prev) / (raw_time raw - raw_time prev)
                 / (1024 * 1024),
             rate_tx = real_of_int (raw_tx raw - raw_tx prev) / (raw_time raw - raw_time prev)
                 / (1024 * 1024)\<rparr>) \<and>
   (raw_disk_io m (delete_disk_partition_number d) = Some dprev \<and>
    raw_time draw - raw_time dprev = 0 \<longrightarrow>
      fst (get_disk_io_rate d hw draw m) = Inl ZeroDivisionError \<and>
      disk_io_rate (snd (get_disk_io_rate d hw draw m)) = disk_io_rate m \<and>
      raw_disk_io (snd (get_disk_io_rate d hw draw m)) = raw_disk_io m) \<and>
   (raw_disk_io m (delete_disk_partition_number d) = Some dprev \<and>
    raw_time draw - raw_time dprev < 0 \<and>
    effective_sector_size m (delete_disk_partition_number d) hw \<noteq> 0 \<longrightarrow>
      fst (get_disk_io_rate d hw draw m) =
        Inr \<lparr>rate_rx = real_of_int (raw_rx draw - raw_rx dprev) / (raw_time draw - raw_time dprev)
                 / (1024 / real_of_int (effective_sector_size m (delete_disk_partition_number d) hw))
                 / 1024,
             rate_tx = real_of_int (raw_tx draw - raw_tx dprev) / (raw_time draw - raw_time dprev)
                 / (1024 / real_of_int (effective_sector_size m (delete_disk_partition_number d) hw))
                 / 1024\<rparr> \<and>
      disk_io_rate (snd (get_disk_io_rate d hw draw m)) (delete_disk_partition_number d) =
        Some \<lparr>rate_rx = real_of_int (raw_rx draw - raw_rx dprev) / (raw_time draw - raw_time dprev)
                 / (1024 / real_of_int (effective_sector_size m (delete_disk_partition_number d) hw))
                 / 1024,
             rate_tx = real_of_int (raw_tx draw - raw_tx dprev) / (raw_time draw - raw_time dprev)
                 / (1024 / real_of_int (effective_sector_size m (delete_disk_partition_number d) hw))
                 / 1024\<rparr>)"
proof (intro conjI impI)
  show "get_interface_io_rate i raw m = (Inl ZeroDivisionError, m)"
    if "raw_interface_io m i = Some prev \<and> raw_time raw - raw_time prev = 0"
    using that get_interface_io_rate_zero [of m i prev raw] by blast
  {
    assume a: "raw_interface_io m i = Some prev \<and> raw_time raw - raw_time prev < 0"
    then have "raw_time raw - raw_time prev \<noteq> 0" by simp
    with a have r: "get_interface_io_rate i raw m =
       (Inr \<lparr>rate_rx = real_of_int (raw_rx raw - raw_rx prev) / (raw_time raw - raw_time prev)
                 / (1024 * 1024),
             rate_tx = real_of_int (raw_tx raw - raw_tx prev) / (raw_time raw - raw_time prev)
                 / (1024 * 1024)\<rparr>,
        m\<lparr>interface_io_rate := (interface_io_rate m)(i \<mapsto>
            \<lparr>rate_rx = real_of_int (raw_rx raw - raw_rx prev) / (raw_time raw - raw_time prev)
                 / (1024 * 1024),
             rate_tx = real_of_int (raw_tx raw - raw_tx prev) / (raw_time raw - raw_time prev)
                 / (1024 * 1024)\<rparr>),
          raw_interface_io := (raw_interface_io m)(i \<mapsto> raw)\<rparr>)"
      using get_interface_io_rate_nonzero [of m i prev raw] by blast
    show "fst (get_interface_io_rate i raw m) =
        Inr \<lparr>rate_rx = real_of_int (raw_rx raw - raw_rx prev) / (raw_time raw - raw_time prev)
                 / (1024 * 1024),
             rate_tx = real_of_int (raw_tx raw - raw_tx prev) / (raw_time raw - raw_time prev)
                 / (1024 * 1024)\<rparr>"
      by (simp only: r fst_conv)
    show "interface_io_rate (snd (get_interface_io_rate i raw m)) i =
        Some \<lparr>rate_rx = real_of_int (raw_rx raw - raw_rx prev) / (raw_time raw - raw_time prev)
                 / (1024 * 1024),
             rate_tx = real_of_int (raw_tx raw - raw_tx prev) / (raw_time raw - raw_time prev)
                 / (1024 * 1024)\<rparr>"
      by (simp only: r snd_conv) simp
  }
  {
    assume "raw_disk_io m (delete_disk_partition_number d) = Some dprev \<and>
      raw_time draw - raw_time dprev = 0"
    then have z: "fst (get_disk_io_rate d hw draw m) = Inl ZeroDivisionError \<and>
      disk_io_rate (snd (get_disk_io_rate d hw draw m)) = disk_io_rate m \<and>
      raw_disk_io (snd (get_disk_io_rate d hw draw m)) = raw_disk_io m"
      using get_disk_io_rate_zero [of m d dprev draw hw] by blast
    from z show "fst (get_disk_io_rate d hw draw m) = Inl ZeroDivisionError" by simp
    from z show "disk_io_rate (snd (get_disk_io_rate d hw draw m)) = disk_io_rate m" by simp
    from z show "raw_disk_io (snd (get_disk_io_rate d hw draw m)) = raw_disk_io m" by simp
  }
  {
    assume a: "raw_disk_io m (delete_disk_partition_number d) = Some dprev \<and>
      raw_time draw - raw_time dprev < 0 \<and>
      effective_sector_size m (delete_disk_partition_number d) hw \<noteq> 0"
    then have nz: "raw_time draw - raw_time dprev \<noteq> 0" by simp
    from a have p: "raw_disk_io m (delete_disk_partition_number d) = Some dprev"
      and ss: "effective_sector_size m (delete_disk_partition_number d) hw \<noteq> 0"
      by simp_all
    note r = get_disk_io_rate_nonzero [OF p nz ss]
    from r show "fst (get_disk_io_rate d hw draw m) =
        Inr \<lparr>rate_rx = real_of_int (raw_rx draw - raw_rx dprev) / (raw_time draw - raw_time dprev)
                 / (1024 / real_of_int (effective_sector_size m (delete_disk_partition_number d) hw))
                 / 1024,
             rate_tx = real_of_int (raw_tx draw - raw_tx dprev) / (raw_time draw - raw_time dprev)
                 / (1024 / real_of_int (effective_sector_size m (delete_disk_partition_number d) hw))
                 / 1024\<rparr>"
      by (rule conjunct1)
    from r show "disk_io_rate (snd (get_disk_io_rate d hw draw m)) (delete_disk_partition_number d) =
        Some \<lparr>rate_rx = real_of_int (raw_rx draw - raw_rx dprev) / (raw_time draw - raw_time dprev)
                 / (1024 / real_of_int (effective_sector_size m (delete_disk_partition_number d) hw))
                 / 1024,
             rate_tx = real_of_int (raw_tx draw - raw_tx dprev) / (raw_time draw - raw_time dprev)
                 / (1024 / real_of_int (effective_sector_size m (delete_disk_partition_number d) hw))
                 / 1024\<rparr>"
      by simp
  }
qed

theorem elapsed_nonpositive_witness:
  "get_interface_io_rate ''eth0'' \<lparr>raw_rx = 5000, raw_tx = 6000, raw_time = 10\<rparr>
     (no_metrics\<lparr>interface_io_rate := [''eth0'' \<mapsto> \<lparr>rate_rx = 1, rate_tx = 2\<rparr>],
        raw_interface_io := [''eth0'' \<mapsto> \<lparr>raw_rx = 1000, raw_tx = 2000, raw_time = 10\<rparr>]\<rparr>)
     = (Inl ZeroDivisionError,
        no_metrics\<lparr>interface_io_rate := [''eth0'' \<mapsto> \<lparr>rate_rx = 1, rate_tx = 2\<rparr>],
        raw_interface_io := [''eth0'' \<mapsto> \<lparr>raw_rx = 1000, raw_tx = 2000, raw_time = 10\<rparr>]\<rparr>) \<and>
   fst (get_interface_io_rate ''eth0'' \<lparr>raw_rx = 1049576, raw_tx = 2099152, raw_time = 9\<rparr>
     (no_metrics\<lparr>interface_io_rate := [''eth0'' \<mapsto> \<lparr>rate_rx = 1, rate_tx = 2\<rparr>],
        raw_interface_io := [''eth0'' \<mapsto> \<lparr>raw_rx = 1000, raw_tx = 2000, raw_time = 10\<rparr>]\<rparr>))
     = Inr \<lparr>rate_rx = - 1, rate_tx = - 2\<rparr> \<and>
   fst (get_disk_io_rate ''sda1'' 512 \<lparr>raw_rx = 5000, raw_tx = 6000, raw_time = 10\<rparr>
     (no_metrics\<lparr>disk_io_rate := [''sda'' \<mapsto> \<lparr>rate_rx = 1, rate_tx = 2\<rparr>],
        raw_disk_io := [''sda'' \<mapsto> \<lparr>raw_rx = 1000, raw_tx = 2000, raw_time = 10\<rparr>],
        disk_sector_sizes := [''sda'' \<mapsto> 512]\<rparr>))
     = Inl ZeroDivisionError \<and>
   fst (get_disk_io_rate ''sda1'' 512 \<lparr>raw_rx = 3048, raw_tx = 6096, raw_time = 9\<rparr>
     (no_metrics\<lparr>disk_io_rate := [''sda'' \<mapsto> \<lparr>rate_rx = 1, rate_tx = 2\<rparr>],
        raw_disk_io := [''sda'' \<mapsto> \<lparr>raw_rx = 1000, raw_tx = 2000, raw_time = 10\<rparr>],
        disk_sector_sizes := [''sda'' \<mapsto> 512]\<rparr>))
     = Inr \<lparr>rate_rx = - 1, rate_tx = - 2\<rparr>"
proof -
  let ?p = "\<lparr>raw_rx = 1000, raw_tx = 2000, raw_time = 10\<rparr>"
  let ?z = "\<lparr>raw_rx = 5000, raw_tx = 6000, raw_time = 10\<rparr>"
  let ?ni = "\<lparr>raw_rx = 1049576, raw_tx = 2099152, raw_time = 9\<rparr>"
  let ?nd = "\<lparr>raw_rx = 3048, raw_tx = 6096, raw_time = 9\<rparr>"
  let ?mi = "no_metrics\<lparr>interface_io_rate := [''eth0'' \<mapsto> \<lparr>rate_rx = 1, rate_tx = 2\<rparr>],
        raw_interface_io := [''eth0'' \<mapsto> \<lparr>raw_rx = 1000, raw_tx = 2000, raw_time = 10\<rparr>]\<rparr>"
  let ?md = "no_metrics\<lparr>disk_io_rate := [''sda'' \<mapsto> \<lparr>rate_rx = 1, rate_tx = 2\<rparr>],
        raw_disk_io := [''sda'' \<mapsto> \<lparr>raw_rx = 1000, raw_tx = 2000, raw_time = 10\<rparr>],
        disk_sector_sizes := [''sda'' \<mapsto> 512]\<rparr>"
  note sda = delete_partition_sda1
  have iz: "raw_interface_io ?mi ''eth0'' = Some ?p \<and> raw_time ?z - raw_time ?p = 0"
    and ineg: "raw_interface_io ?mi ''eth0'' = Some ?p \<and> raw_time ?ni - raw_time ?p < 0"
    by simp_all
  have dz: "raw_disk_io ?md (delete_disk_partition_number ''sda1'') = Some ?p \<and>
      raw_time ?z - raw_time ?p = 0"
    and dneg: "raw_disk_io ?md (delete_disk_partition_number ''sda1'') = Some ?p \<and>
      raw_time ?nd - raw_time ?p < 0 \<and>
      effective_sector_size ?md (delete_disk_partition_number ''sda1'') 512 \<noteq> 0"
    and ess: "effective_sector_size ?md ''sda'' 512 = 512"
    by (simp_all add: sda effective_sector_size_def)
  have "get_interface_io_rate ''eth0'' ?z ?mi = (Inl ZeroDivisionError, ?mi)"
    using elapsed_nonpositive [where m = ?mi and i = "''eth0''" and raw = ?z and prev = ?p] iz
    by blast
  moreover have "fst (get_interface_io_rate ''eth0'' ?ni ?mi) = Inr \<lparr>rate_rx = - 1, rate_tx = - 2\<rparr>"
    using elapsed_nonpositive [where m = ?mi and i = "''eth0''" and raw = ?ni and prev = ?p] ineg
    by simp
  moreover have "fst (get_disk_io_rate ''sda1'' 512 ?z ?md) = Inl ZeroDivisionError"
    using elapsed_nonpositive [where m = ?md and d = "''sda1''" and draw = ?z and dprev = ?p
        and hw = 512] dz
    by blast
  moreover have "fst (get_disk_io_rate ''sda1'' 512 ?nd ?md) = Inr \<lparr>rate_rx = - 1, rate_tx = - 2\<rparr>"
    using elapsed_nonpositive [where m = ?md and d = "''sda1''" and draw = ?nd and dprev = ?p
        and hw = 512] dneg
    by (simp add: sda ess)
  ultimately show ?thesis by (intro conjI)
qed

section \<open>Display consumer\<close>

lemma render_failure:
  "page_text p action = Inl ex \<Longrightarrow>
     render page_text draw_text p action d =
       d\<lparr>printed := printed d @ [ex], frames := frames d @ [buffer d], buffer := []\<rparr>"
  by (simp add: render_def disp_show_def)

lemma buffer_render: "buffer (render page_text draw_text p action d) = []"
  by (simp add: render_def disp_show_def)

lemma display_list_draw_loop:
  "display_list (draw_loop draw_text items d) = display_list d"
  by (induction items arbitrary: d) (auto split: option.splits)

lemma display_list_render:
  "display_list (render page_text draw_text p action d) = display_list d"
  by (simp add: render_def disp_show_def display_list_draw_loop split: sum.splits)

lemma display_step_advance:
  "(if display_list d = [] then pages else display_list d) = p # ps \<Longrightarrow>
     display_step c pages page_text draw_text True (w, d) =
       (Inr (),
        w\<lparr>next_time := clock w + slider_time c, refresh_time := clock w + slider_refresh c\<rparr>,
        (render page_text draw_text p True
           ((if display_list d = [] then d\<lparr>display_list := pages\<rparr> else d)
              \<lparr>last_page := Some p\<rparr>))
          \<lparr>display_list := ps\<rparr>)"
  by (auto simp: display_step_def Let_def display_list_render split: if_splits)

lemma display_step_refresh:
  "last_page d = Some p \<Longrightarrow>
     display_step c pages page_text draw_text False (w, d) =
       (Inr (), w\<lparr>refresh_time := clock w + slider_refresh c\<rparr>,
        render page_text draw_text p False
          (d\<lparr>display_list := (if display_list d = [] then pages else display_list d)\<rparr>))"
  by (auto simp: display_step_def Let_def)

text \<open>Every write blanks the image buffer, so a blank buffer stays blank from message to
  message, whatever the pages do.\<close>

lemma display_step_blank:
  "buffer d = [] \<Longrightarrow>
     buffer (snd (snd (display_step c pages page_text draw_text action (w, d)))) = []"
  by (auto simp: display_step_def Let_def buffer_render split: option.splits)

lemma display_process_blank:
  "buffer (snd wd) = [] \<Longrightarrow>
     buffer (snd (snd (display_process c pages page_text draw_text actions wd))) = []"
proof (induction actions arbitrary: wd)
  case Nil
  then show ?case by simp
next
  case (Cons action actions)
  obtain w d where wd: "wd = (w, d)" by (cases wd)
  obtain r w' d' where st: "display_step c pages page_text draw_text action (w, d) = (r, w', d')"
    by (cases "display_step c pages page_text draw_text action (w, d)")
  have "buffer d' = []"
    using display_step_blank [of d c pages page_text draw_text action w] Cons.prems wd st
    by simp
  then show ?case
    using Cons.IH [of "(w', d')"] wd st by (cases r) simp_all
qed

text \<open>
  Claim C3, as stated, fails.  With two pages of which the first raises, the message
  \<^verbatim>\<open>True\<close> makes the consumer log the exception and then write a frame to the display
  all the same: \<^verbatim>\<open>disp_show()\<close> stands after the \<^verbatim>\<open>try\<close> statement, not inside it.
\<close>

theorem render_error_counterexample:
  "display_step default_conf [0 :: nat, 1]
     (\<lambda>p a. if p = 0 then Inl (Raised ''boom'') else Inr [\<lparr>item_xy = (0, 10), item_text = ''ok''\<rparr>])
     (\<lambda>item. None) True
     (\<lparr>clock = 100, next_time = 0, refresh_time = 0, display_queue = []\<rparr>,
      \<lparr>last_page = None, display_list = [], buffer = [], frames = [], printed = []\<rparr>)
   = (Inr (),
      \<lparr>clock = 100, next_time = 110, refresh_time = 100, display_queue = []\<rparr>,
      \<lparr>last_page = Some 0, display_list = [1], buffer = [], frames = [[]],
        printed = [Raised ''boom'']\<rparr>)"
  by (simp add: display_step_def render_def disp_show_def default_conf_def Let_def)

text \<open>
  Claim C3, amended.  The image buffer is blank between messages: a step of the consumer
  that starts with a blank buffer ends with a blank buffer, whatever the pages and
  \<^verbatim>\<open>draw.text\<close> do.  If the text generation of the page to be shown raises while the
  consumer processes a message, the exception is logged, nothing is drawn, and the
  consumer goes on to the next message; the display write is not skipped: one frame is
  written, and it is blank, so the display shows no partly drawn page.  The page to be
  shown is the head of the page list for an advance, and the last page shown for a
  refresh.
\<close>

theorem render_error_logged:
  "buffer d = [] \<Longrightarrow>
   buffer (snd (snd (display_step c pages' page_text' draw_text' action' (w', d)))) = [] \<and>
   (page_text p action = Inl ex \<and>
    (if action then (if display_list d = [] then pages else display_list d) = p # ps
     else last_page d = Some p) \<longrightarrow>
      (\<exists>w1 d1. display_step c pages page_text draw_text action (w, d) = (Inr (), w1, d1) \<and>
         printed d1 = printed d @ [ex] \<and>
         frames d1 = frames d @ [[]] \<and>
         buffer d1 = [] \<and>
         display_process c pages page_text draw_text (action # actions) (w, d) =
           display_process c pages page_text draw_text actions (w1, d1)))"
proof (intro conjI impI)
  assume blank: "buffer d = []"
  then show "buffer (snd (snd (display_step c pages' page_text' draw_text' action' (w', d)))) = []"
    by (rule display_step_blank)
  assume a: "page_text p action = Inl ex \<and>
    (if action then (if display_list d = [] then pages else display_list d) = p # ps
     else last_page d = Some p)"
  show "\<exists>w1 d1. display_step c pages page_text draw_text action (w, d) = (Inr (), w1, d1) \<and>
         printed d1 = printed d @ [ex] \<and>
         frames d1 = frames d @ [[]] \<and>
         buffer d1 = [] \<and>
         display_process c pages page_text draw_text (action # actions) (w, d) =
           display_process c pages page_text draw_text actions (w1, d1)"
  proof (cases action)
    case True
    then have act: "action = True" by simp
    from a act have ex: "page_text p True = Inl ex"
      and l: "(if display_list d = [] then pages else display_list d) = p # ps"
      by simp_all
    show ?thesis
      unfolding act using blank
      by (simp add: display_step_advance [OF l]
          render_failure [where page_text = page_text, OF ex])
  next
    case False
    then have act: "action = False" by simp
    from a act have ex: "page_text p False = Inl ex" and l: "last_page d = Some p"
      by simp_all
    show ?thesis
      unfolding act using blank
      by (simp add: display_step_refresh [OF l]
          render_failure [where page_text = page_text, OF ex])
  qed
qed

theorem render_error_logged_witness:
  "\<exists>w1 d1.
     display_step default_conf [0 :: nat, 1]
       (\<lambda>p a. if p = 0 then Inl (Raised ''boom'')
          else Inr [\<lparr>item_xy = (0, 10), item_text = ''ok''\<rparr>])
       (\<lambda>item. None) True
       (\<lparr>clock = 100, next_time = 0, refresh_time = 0, display_queue = []\<rparr>,
        \<lparr>last_page = None, display_list = [], buffer = [], frames = [], printed = []\<rparr>)
       = (Inr (), w1, d1) \<and>
     printed d1 = [Raised ''boom''] \<and> frames d1 = [[]] \<and> buffer d1 = [] \<and>
     display_process default_conf [0 :: nat, 1]
       (\<lambda>p a. if p = 0 then Inl (Raised ''boom'')
          else Inr [\<lparr>item_xy = (0, 10), item_text = ''ok''\<rparr>])
       (\<lambda>item. None) [True, False]
       (\<lparr>clock = 100, next_time = 0, refresh_time = 0, display_queue = []\<rparr>,
        \<lparr>last_page = None, display_list = [], buffer = [], frames = [], printed = []\<rparr>)
       = display_process default_conf [0 :: nat, 1]
           (\<lambda>p a. if p = 0 then Inl (Raised ''boom'')
              else Inr [\<lparr>item_xy = (0, 10), item_text = ''ok''\<rparr>])
           (\<lambda>item. None) [False] (w1, d1)"
proof -
  let ?pt = "\<lambda>(p :: nat) (a :: bool). if p = 0 then Inl (Raised ''boom'')
          else Inr [\<lparr>item_xy = (0, 10), item_text = ''ok''\<rparr>]"
  let ?d = "\<lparr>last_page = None, display_list = [], buffer = [], frames = [], printed = []\<rparr>
    :: nat display"
  have blank: "buffer ?d = []" by simp
  have raises: "?pt 0 True = Inl (Raised ''boom'') \<and>
      (if True then (if display_list ?d = [] then [0, 1] else display_list ?d) = 0 # [1]
       else last_page ?d = Some 0)"
    by simp
  from render_error_logged [OF blank, where page_text = ?pt and c = default_conf
        and draw_text = "\<lambda>item. None" and p = 0 and action = True and pages = "[0, 1]"
        and ps = "[1]" and ex = "Raised ''boom''"
        and w = "\<lparr>clock = 100, next_time = 0, refresh_time = 0, display_queue = []\<rparr>"
        and actions = "[False]"] raises
  show ?thesis by simp
qed

section \<open>Display timers\<close>

lemma consumer_writes_keep:
  "clock (foldl (consumer_write c) w ts) = clock w \<and>
   display_queue (foldl (consumer_write c) w ts) = display_queue w"
  by (induction ts arbitrary: w) (auto simp: consumer_write_def split: prod.splits)

lemma consumer_writes_deadline:
  "next_time (foldl (consumer_write c) w ts) = next_time w \<or>
   (\<exists>t. (t, True) \<in> set ts \<and> next_time (foldl (consumer_write c) w ts) = t + slider_time c)"
proof (induction ts rule: rev_induct)
  case Nil
  then show ?case by simp
next
  case (snoc ta ts)
  obtain t a where ta: "ta = (t, a)" by (cases ta)
  show ?case
  proof (cases a)
    case True
    then show ?thesis using ta by (auto simp: consumer_write_def)
  next
    case False
    then show ?thesis using ta snoc by (auto simp: consumer_write_def)
  qed
qed

lemma env_step_keeps:
  "clock (env_step c w e) = clock w + elapsed e"
  "display_queue (env_step c w e) = display_queue w"
  by (simp_all add: env_step_def consumer_writes_keep)

lemma env_step_deadline:
  "next_time (env_step c w e) = next_time w \<or>
   (\<exists>t. (t, True) \<in> set (consumer e) \<and> next_time (env_step c w e) = t + slider_time c)"
  using consumer_writes_deadline [of c "w\<lparr>clock := clock w + elapsed e\<rparr>" "consumer e"]
  by (simp add: env_step_def)

lemma env_steps_simps [simp]:
  "env_steps c [] w = w"
  "env_steps c (e # es) w = env_steps c es (env_step c w e)"
  "env_steps c (es @ [e]) w = env_step c (env_steps c es w) e"
  by (simp_all add: env_steps_def)

lemma env_steps_queue: "display_queue (env_steps c es w) = display_queue w"
  by (induction es arbitrary: w) (simp_all add: env_step_keeps)

lemma env_steps_clock: "clock (env_steps c es w) = clock w + sum_list (map elapsed es)"
  by (induction es arbitrary: w) (simp_all add: env_step_keeps)

lemma env_steps_deadline:
  "next_time (env_steps c es w) = next_time w \<or>
   (\<exists>e \<in> set es. \<exists>t. (t, True) \<in> set (consumer e) \<and>
      next_time (env_steps c es w) = t + slider_time c)"
proof (induction es rule: rev_induct)
  case Nil
  then show ?case by simp
next
  case (snoc e es)
  from env_step_deadline [of c "env_steps c es w" e] snoc show ?case
    by auto
qed

lemma slider_wait_done:
  "slider_wait c es w = (es', w', True) \<Longrightarrow>
     \<exists>k < length es. es' = drop (Suc k) es \<and> w' = env_steps c (take (Suc k) es) w \<and>
       next_time w' \<le> clock w' \<and>
       (\<forall>j < k. clock (env_steps c (take (Suc j) es) w)
                 < next_time (env_steps c (take (Suc j) es) w))"
proof (induction es arbitrary: w)
  case Nil
  then show ?case by simp
next
  case (Cons e es)
  let ?w = "env_step c w e"
  show ?case
  proof (cases "clock ?w < next_time ?w")
    case True
    with Cons.prems have "slider_wait c es ?w = (es', w', True)" by simp
    from Cons.IH [OF this] obtain k where k: "k < length es" "es' = drop (Suc k) es"
      "w' = env_steps c (take (Suc k) es) ?w" "next_time w' \<le> clock w'"
      "\<forall>j < k. clock (env_steps c (take (Suc j) es) ?w)
                 < next_time (env_steps c (take (Suc j) es) ?w)"
      by blast
    have "\<forall>j < Suc k. clock (env_steps c (take (Suc j) (e # es)) w)
                 < next_time (env_steps c (take (Suc j) (e # es)) w)"
    proof (intro allI impI)
      fix j assume "j < Suc k"
      then show "clock (env_steps c (take (Suc j) (e # es)) w)
                 < next_time (env_steps c (take (Suc j) (e # es)) w)"
        using True k(5) by (cases j) simp_all
    qed
    with k show ?thesis by (intro exI [of _ "Suc k"]) simp
  next
    case False
    with Cons.prems have "es' = es" "w' = ?w" by simp_all
    with False show ?thesis by (intro exI [of _ 0]) simp
  qed
qed

lemma slider_wait_pending:
  "slider_wait c es w = (es', w', False) \<Longrightarrow>
     es' = [] \<and> w' = env_steps c es w \<and>
     (\<forall>j < length es. clock (env_steps c (take (Suc j) es) w)
                 < next_time (env_steps c (take (Suc j) es) w))"
proof (induction es arbitrary: w)
  case Nil
  then show ?case by simp
next
  case (Cons e es)
  let ?w = "env_step c w e"
  from Cons.prems have less: "clock ?w < next_time ?w"
    by (auto simp: Let_def split: if_splits)
  with Cons.prems have "slider_wait c es ?w = (es', w', False)" by simp
  from Cons.IH [OF this] have ih: "es' = []" "w' = env_steps c es ?w"
    "\<forall>j < length es. clock (env_steps c (take (Suc j) es) ?w)
                 < next_time (env_steps c (take (Suc j) es) ?w)"
    by blast+
  have "\<forall>j < length (e # es). clock (env_steps c (take (Suc j) (e # es)) w)
                 < next_time (env_steps c (take (Suc j) (e # es)) w)"
  proof (intro allI impI)
    fix j assume "j < length (e # es)"
    then show "clock (env_steps c (take (Suc j) (e # es)) w)
                 < next_time (env_steps c (take (Suc j) (e # es)) w)"
      using less ih(3) by (cases j) simp_all
  qed
  with ih show ?case by simp
qed

lemma slider_wait_total:
  "\<exists>es' w' b. slider_wait c es w = (es', w', b)"
  by (cases "slider_wait c es w") simp

lemma slider_wait_queue:
  "slider_wait c es w = (es', w', b) \<Longrightarrow> display_queue w' = display_queue w"
  using slider_wait_done [of c es w es' w'] slider_wait_pending [of c es w es' w']
  by (cases b) (auto simp: env_steps_queue)

lemma slider_body_queue:
  "slider_body c es w = (es', w', b) \<Longrightarrow>
     display_queue w' =
       display_queue w @ (if b \<and> slider_time c \<noteq> 0 then [(clock w', True)] else [])"
proof (cases "slider_time c = 0")
  case True
  assume "slider_body c es w = (es', w', b)"
  with True show ?thesis
    by (cases es) (auto simp: slider_body_def env_step_keeps)
next
  case False
  assume body: "slider_body c es w = (es', w', b)"
  obtain es1 w1 b1 where wt: "slider_wait c es (w\<lparr>next_time := clock w + slider_time c\<rparr>)
      = (es1, w1, b1)"
    using slider_wait_total by blast
  from slider_wait_queue [OF wt] have "display_queue w1 = display_queue w" by simp
  with body wt False show ?thesis
    by (auto simp: slider_body_def queue_put_def)
qed

text \<open>One completed iteration of the auto-slider loop with a nonzero period.\<close>

lemma slider_body_done:
  assumes "slider_time c \<noteq> 0" and "slider_body c es w = (es', w', True)"
  shows "\<exists>k < length es. es' = drop (Suc k) es \<and>
     w' = queue_put True
            (env_steps c (take (Suc k) es) (w\<lparr>next_time := clock w + slider_time c\<rparr>)) \<and>
     display_queue w' = display_queue w @ [(clock w', True)] \<and>
     clock w' = clock w + sum_list (map elapsed (take (Suc k) es)) \<and>
     next_time w' \<le> clock w' \<and>
     (\<forall>j < k. clock (env_steps c (take (Suc j) es) (w\<lparr>next_time := clock w + slider_time c\<rparr>))
        < next_time (env_steps c (take (Suc j) es) (w\<lparr>next_time := clock w + slider_time c\<rparr>))) \<and>
     (next_time w' = clock w + slider_time c \<or>
      (\<exists>e \<in> set (take (Suc k) es). \<exists>t. (t, True) \<in> set (consumer e) \<and>
         next_time w' = t + slider_time c))"
proof -
  let ?w = "w\<lparr>next_time := clock w + slider_time c\<rparr>"
  obtain es1 w1 b1 where wt: "slider_wait c es ?w = (es1, w1, b1)"
    using slider_wait_total by blast
  with assms have b1: "b1" and es1: "es' = es1" and w': "w' = queue_put True w1"
    by (auto simp: slider_body_def split: if_splits)
  from wt b1 have "slider_wait c es ?w = (es1, w1, True)" by simp
  from slider_wait_done [OF this] obtain k where k: "k < length es" "es1 = drop (Suc k) es"
    "w1 = env_steps c (take (Suc k) es) ?w" "next_time w1 \<le> clock w1"
    "\<forall>j < k. clock (env_steps c (take (Suc j) es) ?w)
       < next_time (env_steps c (take (Suc j) es) ?w)"
    by blast
  have q: "display_queue w' = display_queue w @ [(clock w', True)]"
    using w' k(3) by (simp add: queue_put_def env_steps_queue)
  have cl: "clock w' = clock w + sum_list (map elapsed (take (Suc k) es))"
    using w' k(3) by (simp add: queue_put_def env_steps_clock)
  have nt: "next_time w' \<le> clock w'" using w' k(4) by (simp add: queue_put_def)
  have pv: "next_time w' = clock w + slider_time c \<or>
      (\<exists>e \<in> set (take (Suc k) es). \<exists>t. (t, True) \<in> set (consumer e) \<and>
         next_time w' = t + slider_time c)"
    using env_steps_deadline [of c "take (Suc k) es" ?w] w' k(3)
    by (simp add: queue_put_def)
  from k(1) es1 k(2) w' k(3) q cl nt k(5) pv show ?thesis by blast
qed

text \<open>An iteration that the environment given does not let complete: every test found
  the clock before the deadline.\<close>

lemma slider_body_pending:
  assumes "slider_time c \<noteq> 0" and "slider_body c es w = (es', w', False)"
  shows "display_queue w' = display_queue w \<and>
     (\<forall>j < length es.
        clock (env_steps c (take (Suc j) es) (w\<lparr>next_time := clock w + slider_time c\<rparr>))
        < next_time (env_steps c (take (Suc j) es) (w\<lparr>next_time := clock w + slider_time c\<rparr>)))"
proof -
  let ?w = "w\<lparr>next_time := clock w + slider_time c\<rparr>"
  obtain es1 w1 b1 where wt: "slider_wait c es ?w = (es1, w1, b1)"
    using slider_wait_total by blast
  with assms have b1: "\<not> b1" and w': "w' = w1"
    by (auto simp: slider_body_def split: if_splits)
  from wt b1 have "slider_wait c es ?w = (es1, w1, False)" by simp
  from slider_wait_pending [OF this] w' show ?thesis
    by (simp add: env_steps_queue)
qed

lemma slider_loop_running:
  assumes "slider_auto c" and "slider_time c \<noteq> 0"
  shows "\<exists>w' ms. slider_loop c n es w = Running w' \<and>
     display_queue w' = display_queue w @ ms \<and> (\<forall>m \<in> set ms. snd m)"
proof (induction n arbitrary: es w)
  case 0
  then show ?case using assms by simp
next
  case (Suc n)
  obtain es1 w1 b where body: "slider_body c es w = (es1, w1, b)"
    by (cases "slider_body c es w")
  note q = slider_body_queue [OF body]
  show ?case
  proof (cases b)
    case True
    from Suc [of es1 w1] obtain w' ms where
      r: "slider_loop c n es1 w1 = Running w'" "display_queue w' = display_queue w1 @ ms"
        "\<forall>m \<in> set ms. snd m"
      by blast
    have "slider_loop c (Suc n) es w = Running w'"
      using assms body True r(1) by simp
    moreover have "display_queue w' = display_queue w @ ((clock w1, True) # ms)"
      using q True assms(2) r(2) by simp
    moreover have "\<forall>m \<in> set ((clock w1, True) # ms). snd m" using r(3) by simp
    ultimately show ?thesis by blast
  next
    case False
    then have "slider_loop c (Suc n) es w = Running w1"
      using assms body by simp
    moreover have "display_queue w1 = display_queue w @ []" using q False by simp
    ultimately show ?thesis by (intro exI [of _ w1] exI [of _ "[]"]) simp
  qed
qed

lemma slider_loop_grows:
  "\<exists>ms. display_queue (run_state (slider_loop c n es w)) = display_queue w @ ms"
proof (induction n arbitrary: es w)
  case 0
  then show ?case by simp
next
  case (Suc n)
  obtain es1 w1 b where body: "slider_body c es w = (es1, w1, b)"
    by (cases "slider_body c es w")
  from slider_body_queue [OF body] obtain ms1
    where 1: "display_queue w1 = display_queue w @ ms1" by blast
  from Suc [of es1 w1] obtain ms2
    where 2: "display_queue (run_state (slider_loop c n es1 w1)) = display_queue w1 @ ms2"
    by blast
  show ?case
  proof (cases "slider_auto c")
    case True
    then show ?thesis using body 1 2 by (cases b) simp_all
  next
    case False
    then show ?thesis by simp
  qed
qed

lemma refresh_display_off:
  "slider_refresh c = 0 \<Longrightarrow> refresh_display c es w = Returned w"
  by (cases es) simp_all

text \<open>What the display consumer writes to the deadlines when it handles a message is what
  the environment of the timer loops is made of.\<close>

lemma display_step_writes:
  "fst (snd (display_step c pages page_text draw_text action (w, d)))
     = consumer_write c w (clock w, action)"
  by (simp add: display_step_def consumer_write_def Let_def)

lemma slider_body_example:
  "slider_body (default_conf\<lparr>slider_time := 1 / 4\<rparr>)
     [\<lparr>elapsed = 0, consumer = []\<rparr>, \<lparr>elapsed = 1 / 10, consumer = []\<rparr>,
      \<lparr>elapsed = 1 / 10, consumer = [(501 / 5, True)]\<rparr>, \<lparr>elapsed = 1 / 10, consumer = []\<rparr>,
      \<lparr>elapsed = 1 / 10, consumer = []\<rparr>, \<lparr>elapsed = 1 / 10, consumer = []\<rparr>]
     \<lparr>clock = 100, next_time = 110, refresh_time = 0, display_queue = [(100, True)]\<rparr>
   = ([], \<lparr>clock = 201 / 2, next_time = 2009 / 20, refresh_time = 501 / 5,
        display_queue = [(100, True), (201 / 2, True)]\<rparr>, True)"
  by (simp add: slider_body_def env_step_def consumer_write_def queue_put_def default_conf_def)

lemma auto_slider_example:
  "auto_slider (default_conf\<lparr>slider_time := 1 / 4\<rparr>) 1
     [\<lparr>elapsed = 0, consumer = []\<rparr>, \<lparr>elapsed = 1 / 10, consumer = []\<rparr>,
      \<lparr>elapsed = 1 / 10, consumer = [(501 / 5, True)]\<rparr>, \<lparr>elapsed = 1 / 10, consumer = []\<rparr>,
      \<lparr>elapsed = 1 / 10, consumer = []\<rparr>, \<lparr>elapsed = 1 / 10, consumer = []\<rparr>]
     \<lparr>clock = 100, next_time = 0, refresh_time = 0, display_queue = []\<rparr>
   = Running \<lparr>clock = 201 / 2, next_time = 2009 / 20, refresh_time = 501 / 5,
        display_queue = [(100, True), (201 / 2, True)]\<rparr>"
proof -
  have "queue_put True (\<lparr>clock = 100, next_time = 0, refresh_time = 0, display_queue = []\<rparr>\<lparr>next_time := clock \<lparr>clock = 100, next_time = 0, refresh_time = 0, display_queue = []\<rparr> + 10\<rparr>) = \<lparr>clock = 100, next_time = 110, refresh_time = 0, display_queue = [(100, True)]\<rparr>"
    by (simp add: queue_put_def)
  moreover have "slider_auto default_conf" by (simp add: default_conf_def)
  ultimately show ?thesis
    by (simp add: auto_slider_def slider_body_example)
qed

text \<open>
  Claim C4, as stated, fails.  With a slider period of 0.25 s and no refresh, the
  auto-slider loop puts its first message at clock reading 100 and sets the deadline to
  100.25.  The display consumer handles that message at its clock reading 100.2 and sets
  the deadline again, to 100.45 (its reading plus the slider period, as
  \<^verbatim>\<open>display_process\<close> does for every advance).  The loop, polling every 0.1 s, puts
  its next message at 100.5: half a second after the first, twice the slider period and
  more than a polling interval beyond it.
\<close>

theorem refresh_disabled_counterexample:
  "slider_refresh (default_conf\<lparr>slider_time := 1 / 4\<rparr>) = 0 \<and>
   slider_auto (default_conf\<lparr>slider_time := 1 / 4\<rparr>) \<and>
   slider_time (default_conf\<lparr>slider_time := 1 / 4\<rparr>) = 1 / 4 \<and>
   auto_slider (default_conf\<lparr>slider_time := 1 / 4\<rparr>) 1
     [\<lparr>elapsed = 0, consumer = []\<rparr>, \<lparr>elapsed = 1 / 10, consumer = []\<rparr>,
      \<lparr>elapsed = 1 / 10, consumer = [(501 / 5, True)]\<rparr>, \<lparr>elapsed = 1 / 10, consumer = []\<rparr>,
      \<lparr>elapsed = 1 / 10, consumer = []\<rparr>, \<lparr>elapsed = 1 / 10, consumer = []\<rparr>]
     \<lparr>clock = 100, next_time = 0, refresh_time = 0, display_queue = []\<rparr>
   = Running \<lparr>clock = 201 / 2, next_time = 2009 / 20, refresh_time = 501 / 5,
        display_queue = [(100, True), (201 / 2, True)]\<rparr> \<and>
   (100 :: real) + 1 / 4 + 1 / 10 < 201 / 2 \<and>
   next_time (fst (snd (display_step (default_conf\<lparr>slider_time := 1 / 4\<rparr>) [0 :: nat]
       (\<lambda>p a. Inr []) (\<lambda>item. None) True
       (\<lparr>clock = 501 / 5, next_time = 401 / 4, refresh_time = 0, display_queue = [(100, True)]\<rparr>,
        \<lparr>last_page = None, display_list = [], buffer = [], frames = [], printed = []\<rparr>))))
   = 2009 / 20"
proof -
  have "slider_refresh (default_conf\<lparr>slider_time := 1 / 4\<rparr>) = 0" "slider_auto (default_conf\<lparr>slider_time := 1 / 4\<rparr>)"
    "slider_time (default_conf\<lparr>slider_time := 1 / 4\<rparr>) = 1 / 4"
    by (simp_all add: default_conf_def)
  moreover note auto_slider_example
  moreover have "(100 :: real) + 1 / 4 + 1 / 10 < 201 / 2" by simp
  moreover have "next_time (fst (snd (display_step (default_conf\<lparr>slider_time := 1 / 4\<rparr>) [0 :: nat]
       (\<lambda>p a. Inr []) (\<lambda>item. None) True
       (\<lparr>clock = 501 / 5, next_time = 401 / 4, refresh_time = 0, display_queue = [(100, True)]\<rparr>,
        \<lparr>last_page = None, display_list = [], buffer = [], frames = [], printed = []\<rparr>))))
   = 2009 / 20"
    by (simp add: display_step_writes consumer_write_def)
  ultimately show ?thesis by (intro conjI)
qed

text \<open>
  Claim C4, amended.  With a refresh period of 0 the refresh loop returns at once and
  leaves the queue as it was: it never puts \<^verbatim>\<open>False\<close>.  The auto-slider loop, with
  auto-advance on and a nonzero slider period, goes on whatever its environment does: it
  never returns, and every message it puts is \<^verbatim>\<open>True\<close>, the first one at its start.
  Each iteration sets the deadline \<^verbatim>\<open>next_time[0]\<close> to the clock reading plus the slider
  period and puts one message at the first test that does not find the clock before the
  deadline then in force; until then it puts nothing.  The deadline in force is the one
  the iteration set, or, when the display consumer handled an advance meanwhile, the
  consumer's clock reading plus the slider period: the interval between two messages is
  the slider period plus the consumer's delay, not the slider period.
\<close>

theorem refresh_disabled:
  "slider_refresh c = 0 \<Longrightarrow>
     refresh_display c es w = Returned w \<and>
     (slider_auto c \<and> slider_time c \<noteq> 0 \<longrightarrow>
        (\<exists>w' ms. auto_slider c n es w = Running w' \<and>
           display_queue w' = display_queue w @ (clock w, True) # ms \<and>
           (\<forall>m \<in> set ms. snd m)) \<and>
        (slider_body c fs v = (fs', v', True) \<longrightarrow>
           slider_loop c (Suc n) fs v = slider_loop c n fs' v' \<and>
           (\<exists>k < length fs. fs' = drop (Suc k) fs \<and>
              display_queue v' = display_queue v @ [(clock v', True)] \<and>
              clock v' = clock v + sum_list (map elapsed (take (Suc k) fs)) \<and>
              next_time v' \<le> clock v' \<and>
              (\<forall>j < k.
                 clock (env_steps c (take (Suc j) fs) (v\<lparr>next_time := clock v + slider_time c\<rparr>))
                 < next_time
                     (env_steps c (take (Suc j) fs) (v\<lparr>next_time := clock v + slider_time c\<rparr>))) \<and>
              (next_time v' = clock v + slider_time c \<or>
               (\<exists>e \<in> set (take (Suc k) fs). \<exists>t. (t, True) \<in> set (consumer e) \<and>
                  next_time v' = t + slider_time c)))) \<and>
        (slider_body c fs v = (fs', v', False) \<longrightarrow>
           slider_loop c (Suc n) fs v = Running v' \<and>
           display_queue v' = display_queue v \<and>
           (\<forall>j < length fs.
              clock (env_steps c (take (Suc j) fs) (v\<lparr>next_time := clock v + slider_time c\<rparr>))
              < next_time
                  (env_steps c (take (Suc j) fs) (v\<lparr>next_time := clock v + slider_time c\<rparr>)))))"
proof (intro conjI impI)
  assume "slider_refresh c = 0"
  then show "refresh_display c es w = Returned w" by (rule refresh_display_off)
next
  assume "slider_auto c \<and> slider_time c \<noteq> 0"
  then have a: "slider_auto c" and d: "slider_time c \<noteq> 0" by simp_all
  from slider_loop_running [OF a d, of n es "queue_put True (w\<lparr>next_time := clock w + 10\<rparr>)"]
  show "\<exists>w' ms. auto_slider c n es w = Running w' \<and>
           display_queue w' = display_queue w @ (clock w, True) # ms \<and>
           (\<forall>m \<in> set ms. snd m)"
    by (simp add: auto_slider_def queue_put_def)
  {
    assume body: "slider_body c fs v = (fs', v', True)"
    show "slider_loop c (Suc n) fs v = slider_loop c n fs' v'"
      using a body by simp
    from slider_body_done [OF d body]
    show "\<exists>k < length fs. fs' = drop (Suc k) fs \<and>
              display_queue v' = display_queue v @ [(clock v', True)] \<and>
              clock v' = clock v + sum_list (map elapsed (take (Suc k) fs)) \<and>
              next_time v' \<le> clock v' \<and>
              (\<forall>j < k.
                 clock (env_steps c (take (Suc j) fs) (v\<lparr>next_time := clock v + slider_time c\<rparr>))
                 < next_time
                     (env_steps c (take (Suc j) fs) (v\<lparr>next_time := clock v + slider_time c\<rparr>))) \<and>
              (next_time v' = clock v + slider_time c \<or>
               (\<exists>e \<in> set (take (Suc k) fs). \<exists>t. (t, True) \<in> set (consumer e) \<and>
                  next_time v' = t + slider_time c))"
      by blast
  }
  {
    assume body: "slider_body c fs v = (fs', v', False)"
    show "slider_loop c (Suc n) fs v = Running v'"
      using a body by simp
    from slider_body_pending [OF d body]
    show "display_queue v' = display_queue v"
      and "\<forall>j < length fs.
              clock (env_steps c (take (Suc j) fs) (v\<lparr>next_time := clock v + slider_time c\<rparr>))
              < next_time
                  (env_steps c (take (Suc j) fs) (v\<lparr>next_time := clock v + slider_time c\<rparr>))"
      by simp_all
  }
qed

theorem refresh_disabled_witness:
  "slider_refresh (default_conf\<lparr>slider_time := 1 / 4\<rparr>) = 0 \<and>
   slider_auto (default_conf\<lparr>slider_time := 1 / 4\<rparr>) \<and> slider_time (default_conf\<lparr>slider_time := 1 / 4\<rparr>) \<noteq> 0 \<and>
   refresh_display (default_conf\<lparr>slider_time := 1 / 4\<rparr>)
     [\<lparr>elapsed = 0, consumer = []\<rparr>, \<lparr>elapsed = 1 / 10, consumer = []\<rparr>,
      \<lparr>elapsed = 1 / 10, consumer = [(501 / 5, True)]\<rparr>, \<lparr>elapsed = 1 / 10, consumer = []\<rparr>,
      \<lparr>elapsed = 1 / 10, consumer = []\<rparr>, \<lparr>elapsed = 1 / 10, consumer = []\<rparr>]
     \<lparr>clock = 100, next_time = 0, refresh_time = 0, display_queue = []\<rparr>
   = Returned \<lparr>clock = 100, next_time = 0, refresh_time = 0, display_queue = []\<rparr> \<and>
   slider_body (default_conf\<lparr>slider_time := 1 / 4\<rparr>)
     [\<lparr>elapsed = 0, consumer = []\<rparr>, \<lparr>elapsed = 1 / 10, consumer = []\<rparr>,
      \<lparr>elapsed = 1 / 10, consumer = [(501 / 5, True)]\<rparr>, \<lparr>elapsed = 1 / 10, consumer = []\<rparr>,
      \<lparr>elapsed = 1 / 10, consumer = []\<rparr>, \<lparr>elapsed = 1 / 10, consumer = []\<rparr>]
     \<lparr>clock = 100, next_time = 110, refresh_time = 0, display_queue = [(100, True)]\<rparr>
   = ([], \<lparr>clock = 201 / 2, next_time = 2009 / 20, refresh_time = 501 / 5,
        display_queue = [(100, True), (201 / 2, True)]\<rparr>, True) \<and>
   slider_loop (default_conf\<lparr>slider_time := 1 / 4\<rparr>) (Suc 0)
     [\<lparr>elapsed = 0, consumer = []\<rparr>, \<lparr>elapsed = 1 / 10, consumer = []\<rparr>,
      \<lparr>elapsed = 1 / 10, consumer = [(501 / 5, True)]\<rparr>, \<lparr>elapsed = 1 / 10, consumer = []\<rparr>,
      \<lparr>elapsed = 1 / 10, consumer = []\<rparr>, \<lparr>elapsed = 1 / 10, consumer = []\<rparr>]
     \<lparr>clock = 100, next_time = 110, refresh_time = 0, display_queue = [(100, True)]\<rparr>
   = Running \<lparr>clock = 201 / 2, next_time = 2009 / 20, refresh_time = 501 / 5,
        display_queue = [(100, True), (201 / 2, True)]\<rparr> \<and>
   slider_body (default_conf\<lparr>slider_time := 1 / 4\<rparr>) [] \<lparr>clock = 100, next_time = 110, refresh_time = 0, display_queue = [(100, True)]\<rparr>
   = ([], \<lparr>clock = 100, next_time = 401 / 4, refresh_time = 0, display_queue = [(100, True)]\<rparr>, False) \<and>
   slider_loop (default_conf\<lparr>slider_time := 1 / 4\<rparr>) (Suc 0) [] \<lparr>clock = 100, next_time = 110, refresh_time = 0, display_queue = [(100, True)]\<rparr>
   = Running \<lparr>clock = 100, next_time = 401 / 4, refresh_time = 0, display_queue = [(100, True)]\<rparr>"
proof -
  let ?c = "default_conf\<lparr>slider_time := 1 / 4\<rparr>"
  let ?es = "[\<lparr>elapsed = 0, consumer = []\<rparr>, \<lparr>elapsed = 1 / 10, consumer = []\<rparr>,
      \<lparr>elapsed = 1 / 10, consumer = [(501 / 5, True)]\<rparr>, \<lparr>elapsed = 1 / 10, consumer = []\<rparr>,
      \<lparr>elapsed = 1 / 10, consumer = []\<rparr>, \<lparr>elapsed = 1 / 10, consumer = []\<rparr>]"
  let ?v1 = "\<lparr>clock = 201 / 2, next_time = 2009 / 20, refresh_time = 501 / 5,
        display_queue = [(100, True), (201 / 2, True)]\<rparr>"
  have r: "slider_refresh ?c = 0" by (simp add: default_conf_def)
  have a: "slider_auto ?c \<and> slider_time ?c \<noteq> 0" by (simp add: default_conf_def)
  note complete = slider_body_example
  have pending: "slider_body ?c [] \<lparr>clock = 100, next_time = 110, refresh_time = 0, display_queue = [(100, True)]\<rparr>
      = ([], \<lparr>clock = 100, next_time = 401 / 4, refresh_time = 0, display_queue = [(100, True)]\<rparr>, False)"
    by (simp add: slider_body_def)
  have zero: "slider_loop ?c 0 [] ?v1 = Running ?v1"
    using a by simp
  note first = refresh_disabled [OF r, where es = ?es and w = "\<lparr>clock = 100, next_time = 0, refresh_time = 0, display_queue = []\<rparr>"
      and fs = ?es and v = "\<lparr>clock = 100, next_time = 110, refresh_time = 0, display_queue = [(100, True)]\<rparr>" and fs' = "[]" and v' = ?v1 and n = 0]
  note second = refresh_disabled [OF r, where fs = "[]" and v = "\<lparr>clock = 100, next_time = 110, refresh_time = 0, display_queue = [(100, True)]\<rparr>"
      and fs' = "[]" and v' = "\<lparr>clock = 100, next_time = 401 / 4, refresh_time = 0, display_queue = [(100, True)]\<rparr>" and n = 0]
  from first have "refresh_display ?c ?es \<lparr>clock = 100, next_time = 0, refresh_time = 0, display_queue = []\<rparr> = Returned \<lparr>clock = 100, next_time = 0, refresh_time = 0, display_queue = []\<rparr>"
    by (rule conjunct1)
  moreover from first a complete have "slider_loop ?c (Suc 0) ?es \<lparr>clock = 100, next_time = 110, refresh_time = 0, display_queue = [(100, True)]\<rparr> = slider_loop ?c 0 [] ?v1"
    by blast
  then have "slider_loop ?c (Suc 0) ?es \<lparr>clock = 100, next_time = 110, refresh_time = 0, display_queue = [(100, True)]\<rparr> = Running ?v1"
    by (simp only: zero)
  moreover from second a pending have "slider_loop ?c (Suc 0) [] \<lparr>clock = 100, next_time = 110, refresh_time = 0, display_queue = [(100, True)]\<rparr>
      = Running \<lparr>clock = 100, next_time = 401 / 4, refresh_time = 0, display_queue = [(100, True)]\<rparr>"
    by blast
  moreover from a have "slider_auto ?c" "slider_time ?c \<noteq> 0" by simp_all
  ultimately show ?thesis using r complete pending by - (intro conjI; assumption)
qed

text \<open>
  Claim C10.  The auto-slider loop puts \<^verbatim>\<open>True\<close> on the queue once before it tests
  whether auto-advance is enabled: whatever the configuration and the environment and
  however long it runs, the queue it leaves starts with the old queue followed by that
  message.  When auto-advance is off the loop returns at once, having put exactly that
  one message (and set the advance deadline 10 s ahead), so it never puts another.
\<close>

theorem auto_slider_initial:
  "(\<exists>ms. display_queue (run_state (auto_slider c n es w))
       = display_queue w @ (clock w, True) # ms) \<and>
   (\<not> slider_auto c \<longrightarrow>
      auto_slider c n es w =
        Returned (w\<lparr>next_time := clock w + 10,
          display_queue := display_queue w @ [(clock w, True)]\<rparr>))"
proof
  from slider_loop_grows [of c n es "queue_put True (w\<lparr>next_time := clock w + 10\<rparr>)"]
  show "\<exists>ms. display_queue (run_state (auto_slider c n es w))
       = display_queue w @ (clock w, True) # ms"
    by (simp add: auto_slider_def queue_put_def)
  show "\<not> slider_auto c \<longrightarrow>
      auto_slider c n es w =
        Returned (w\<lparr>next_time := clock w + 10,
          display_queue := display_queue w @ [(clock w, True)]\<rparr>)"
    by (simp add: auto_slider_def queue_put_def)
qed

theorem auto_slider_initial_witness:
  "\<not> slider_auto (default_conf\<lparr>slider_auto := False\<rparr>) \<and>
   auto_slider (default_conf\<lparr>slider_auto := False\<rparr>) 5
     [\<lparr>elapsed = 1 / 10, consumer = [(100, True)]\<rparr>, \<lparr>elapsed = 1 / 10, consumer = []\<rparr>]
     \<lparr>clock = 100, next_time = 0, refresh_time = 0, display_queue = [(99, False)]\<rparr>
   = Returned \<lparr>clock = 100, next_time = 110, refresh_time = 0,
       display_queue = [(99, False), (100, True)]\<rparr>"
proof -
  have off: "\<not> slider_auto (default_conf\<lparr>slider_auto := False\<rparr>)" by simp
  from auto_slider_initial [of "default_conf\<lparr>slider_auto := False\<rparr>" 5
      "[\<lparr>elapsed = 1 / 10, consumer = [(100, True)]\<rparr>, \<lparr>elapsed = 1 / 10, consumer = []\<rparr>]"
      "\<lparr>clock = 100, next_time = 0, refresh_time = 0, display_queue = [(99, False)]\<rparr>"] off
  show ?thesis by simp
qed


end
